theory Spec2Isabelle
  imports Complex_Main
begin

section \<open>Data model\<close>

text \<open>
  An HPO term is a string such as \<open>HP:0000118\<close>. The ontology is a directed graph
  (a networkx \<open>DiGraph\<close> in the source): a list of nodes and a list of edges, an edge
  leading from a term to one of its subterms.
\<close>

type_synonym hpo = string

record hpo_graph =
  nodes :: "hpo list"
  edges :: "(hpo \<times> hpo) list"

text \<open>The exceptions that the modelled code can raise. None of them is caught anywhere
  in the source, so a raised exception ends the run: the state is lost with it.\<close>

datatype error = KeyError | ValueError | ZeroDivisionError

text \<open>
  \<open>graph.has_node(term)\<close> and \<open>term in graph\<close> both test membership among the nodes.
  \<open>networkx.descendants(G, t)\<close> is the set of nodes reachable from \<open>t\<close> along one or
  more edges, \<open>t\<close> itself excluded; \<open>networkx.ancestors(G, t)\<close> is the set of nodes
  from which \<open>t\<close> is reachable, \<open>t\<close> excluded. A Python set is represented by a list
  without repetitions; the order of that list is the order in which the source's
  \<open>for\<close> loops visit the set.
\<close>

definition has_node :: "hpo_graph \<Rightarrow> hpo \<Rightarrow> bool" where
  "has_node G t = (t \<in> set (nodes G))"

definition descendants :: "hpo_graph \<Rightarrow> hpo \<Rightarrow> hpo list" where
  "descendants G t =
     filter (\<lambda>v. v \<noteq> t \<and> (t, v) \<in> (set (edges G))\<^sup>+) (remdups (map snd (edges G)))"

definition ancestors :: "hpo_graph \<Rightarrow> hpo \<Rightarrow> hpo list" where
  "ancestors G t =
     filter (\<lambda>v. v \<noteq> t \<and> (v, t) \<in> (set (edges G))\<^sup>+) (remdups (map fst (edges G)))"

text \<open>
  The population \<open>family_hpos\<close> is a dict from proband identifier to an object whose
  \<open>get_child_hpo()\<close> gives the proband's list of terms. It is an association list here,
  in the dict's iteration order, each identifier paired with that list of terms.
\<close>

type_synonym family = "(string \<times> hpo list) list"

text \<open>
  The instance attributes set by \<open>CalculateSimilarity.__init__\<close>. (\<open>graph_depth\<close>, the
  eccentricity of the root \<open>HP:0000001\<close>, is computed there and read by no method; it is
  left out. networkx computes it when every node can be reached from the root, as in the
  graph of the fixtures below.)
\<close>

record similarity =
  graph :: hpo_graph
  family_hpos :: family
  alt_node_ids :: "hpo \<rightharpoonup> hpo"
  descendant_cache :: "hpo \<rightharpoonup> hpo list"
  ancestor_cache :: "hpo \<rightharpoonup> hpo list"
  hpo_counts :: "hpo \<rightharpoonup> int"
  total_freq :: int

text \<open>
  \<open>counts_cache\<close> and \<open>ic_cache\<close> are attributes of the class \<open>ICSimilarity\<close>, not of
  an instance: the two dicts are created once, when the class is defined, and every
  instance reads and writes the same two objects through \<open>self\<close>.
\<close>

record ic_class =
  counts_cache :: "hpo \<rightharpoonup> int"
  ic_cache :: "hpo \<rightharpoonup> real"

text \<open>What a method of an \<open>ICSimilarity\<close> object can read and change: the instance and
  the attributes of its class.\<close>

type_synonym matcher = "similarity \<times> ic_class"

definition class_definition :: ic_class where
  "class_definition = \<lparr>counts_cache = Map.empty, ic_cache = Map.empty\<rparr>"

section \<open>The frequency table: \<open>CalculateSimilarity\<close>\<close>

definition CalculateSimilarity_init :: "family \<Rightarrow> hpo_graph \<Rightarrow> (hpo \<rightharpoonup> hpo) \<Rightarrow> similarity" where
  "CalculateSimilarity_init fam G alt =
     \<lparr>graph = G, family_hpos = fam, alt_node_ids = alt,
      descendant_cache = Map.empty, ancestor_cache = Map.empty,
      hpo_counts = Map.empty, total_freq = 0\<rparr>"

definition fix_alternate_id :: "similarity \<Rightarrow> hpo \<Rightarrow> error + hpo" where
  "fix_alternate_id s t =
     (if has_node (graph s) t then Inr t
      else case alt_node_ids s t of Some t' \<Rightarrow> Inr t' | None \<Rightarrow> Inl KeyError)"

text \<open>
  \<open>add_hpo\<close>, branch by branch as the source nests them: the increment of the term's
  count is inside the block guarded by \<open>term not in self.hpo_counts\<close>; the increment of
  \<open>total_freq\<close> is after that block.
\<close>

definition add_hpo :: "hpo \<Rightarrow> similarity \<Rightarrow> similarity" where
  "add_hpo t s =
     (if hpo_counts s t = None then
        (if \<not> has_node (graph s) t then s
         else
           let s1 = (if hpo_counts s t = None
                     then s\<lparr>hpo_counts := (hpo_counts s)(t \<mapsto> 0)\<rparr> else s);
               s2 = s1\<lparr>hpo_counts := (hpo_counts s1)(t \<mapsto> the (hpo_counts s1 t) + 1)\<rparr>
           in s2\<lparr>total_freq := total_freq s2 + 1\<rparr>)
      else s\<lparr>total_freq := total_freq s + 1\<rparr>)"

definition tally_hpo_terms :: "family \<Rightarrow> similarity \<Rightarrow> similarity" where
  "tally_hpo_terms hpo_terms s =
     foldl (\<lambda>s item. foldl (\<lambda>s t. add_hpo t s) s (snd item)) s hpo_terms"

text \<open>The sum of all per-term tallies of the frequency table.\<close>

definition tally_sum :: "similarity \<Rightarrow> int" where
  "tally_sum s = (\<Sum>t \<in> dom (hpo_counts s). the (hpo_counts s t))"

section \<open>Raising and looping\<close>

text \<open>
  A call that may raise gives \<open>Inl\<close> the exception or \<open>Inr\<close> its result;
  \<open>and_then\<close> continues with the result and passes an exception on. A \<open>for\<close> loop
  runs its body on each element in turn, threading the variables the body changes, and
  stops at the first exception. \<open>append_call f\<close> is the loop body
  \<open>values.append(f(x))\<close>, and \<open>collect\<close> a list comprehension whose element
  expression may raise.
\<close>

definition and_then :: "error + 'a \<Rightarrow> ('a \<Rightarrow> error + 'b) \<Rightarrow> error + 'b" where
  "and_then m f = (case m of Inl e \<Rightarrow> Inl e | Inr v \<Rightarrow> f v)"

fun for_loop :: "('a \<Rightarrow> 's \<Rightarrow> error + 's) \<Rightarrow> 'a list \<Rightarrow> 's \<Rightarrow> error + 's" where
  "for_loop body [] s = Inr s"
| "for_loop body (x # xs) s = and_then (body x s) (for_loop body xs)"

definition append_call ::
  "('a \<Rightarrow> 's \<Rightarrow> error + ('b \<times> 's)) \<Rightarrow> 'a \<Rightarrow> 'b list \<times> 's \<Rightarrow> error + ('b list \<times> 's)" where
  "append_call f x = (\<lambda>(acc, st). and_then (f x st) (\<lambda>(v, st'). Inr (acc @ [v], st')))"

fun collect :: "('a \<Rightarrow> error + 'b) \<Rightarrow> 'a list \<Rightarrow> error + 'b list" where
  "collect g [] = Inr []"
| "collect g (x # xs) = and_then (g x) (\<lambda>v. and_then (collect g xs) (\<lambda>vs. Inr (v # vs)))"

text \<open>What a call gave, without the state it left behind.\<close>

definition outcome :: "error + ('a \<times> 's) \<Rightarrow> error + 'a" where
  "outcome r = (case r of Inl e \<Rightarrow> Inl e | Inr (v, st) \<Rightarrow> Inr v)"

section \<open>Cached graph queries\<close>

text \<open>\<open>get_subterms\<close> is only called for a term that \<open>get_term_count\<close> has found in
  the graph, and \<open>get_ancestors\<close> only for terms that \<open>find_common_ancestors\<close> has found
  there, so networkx never sees a term that is not a node.\<close>

definition get_subterms :: "hpo \<Rightarrow> similarity \<Rightarrow> hpo list \<times> similarity" where
  "get_subterms top_term s =
     (case descendant_cache s top_term of
        Some d \<Rightarrow> (d, s)
      | None \<Rightarrow>
          (let d = descendants (graph s) top_term
           in (d, s\<lparr>descendant_cache := (descendant_cache s)(top_term \<mapsto> d)\<rparr>)))"

definition get_ancestors :: "hpo \<Rightarrow> similarity \<Rightarrow> hpo list \<times> similarity" where
  "get_ancestors bottom_term s =
     (case ancestor_cache s bottom_term of
        Some a \<Rightarrow> (a, s)
      | None \<Rightarrow>
          (let subterms = ancestors (graph s) bottom_term @ [bottom_term]
           in (subterms, s\<lparr>ancestor_cache := (ancestor_cache s)(bottom_term \<mapsto> subterms)\<rparr>)))"

definition find_common_ancestors :: "hpo \<Rightarrow> hpo \<Rightarrow> similarity \<Rightarrow> hpo list \<times> similarity" where
  "find_common_ancestors term_1 term_2 s =
     (if \<not> (has_node (graph s) term_1 \<and> has_node (graph s) term_2) then ([], s)
      else
        (let (a1, s1) = get_ancestors term_1 s;
             (a2, s2) = get_ancestors term_2 s1
         in (filter (\<lambda>a. a \<in> set a2) a1, s2)))"

section \<open>Information content: \<open>ICSimilarity\<close>\<close>

text \<open>Constructing an \<open>ICSimilarity\<close> runs the inherited \<open>__init__\<close>; the class
  attributes are whatever they are at that moment.\<close>

definition ICSimilarity_init ::
  "family \<Rightarrow> hpo_graph \<Rightarrow> (hpo \<rightharpoonup> hpo) \<Rightarrow> ic_class \<Rightarrow> matcher" where
  "ICSimilarity_init fam G alt cls = (CalculateSimilarity_init fam G alt, cls)"

text \<open>\<open>matcher.tally_hpo_terms(...)\<close> on an \<open>ICSimilarity\<close>: it changes the instance.\<close>

definition tally :: "family \<Rightarrow> matcher \<Rightarrow> matcher" where
  "tally hpo_terms st = (tally_hpo_terms hpo_terms (fst st), snd st)"

definition get_term_count :: "hpo \<Rightarrow> matcher \<Rightarrow> int \<times> matcher" where
  "get_term_count t st =
     (case counts_cache (snd st) t of
        Some n \<Rightarrow> (n, st)
      | None \<Rightarrow>
          (if \<not> has_node (graph (fst st)) t then (0, st)
           else
             (let (descs, s1) = get_subterms t (fst st);
                  count = 0;
                  count = (case hpo_counts s1 t of Some k \<Rightarrow> count + k | None \<Rightarrow> count);
                  count = foldl (\<lambda>count subterm.
                            case hpo_counts s1 subterm of Some k \<Rightarrow> count + k | None \<Rightarrow> count)
                          count descs
              in (count, (s1, (snd st)\<lparr>counts_cache := (counts_cache (snd st))(t \<mapsto> count)\<rparr>)))))"

text \<open>
  \<open>term_count/self.total_freq\<close> is a true division (\<open>from __future__ import division\<close>):
  it raises \<open>ZeroDivisionError\<close> when the total is 0. \<open>math.log\<close> raises \<open>ValueError\<close>
  on an argument that is not positive. Floats are modelled by the real numbers.
\<close>

definition calculate_information_content :: "hpo \<Rightarrow> matcher \<Rightarrow> error + (real \<times> matcher)" where
  "calculate_information_content t st =
     (case ic_cache (snd st) t of
        Some v \<Rightarrow> Inr (v, st)
      | None \<Rightarrow>
          (let (term_count, st1) = get_term_count t st
           in if \<not> has_node (graph (fst st1)) t then Inr (0, st1)
              else if total_freq (fst st1) = 0 then Inl ZeroDivisionError
              else if real_of_int term_count / real_of_int (total_freq (fst st1)) \<le> 0
                then Inl ValueError
              else
                (let v = - ln (real_of_int term_count / real_of_int (total_freq (fst st1)))
                 in Inr (v, (fst st1, (snd st1)\<lparr>ic_cache := (ic_cache (snd st1))(t \<mapsto> v)\<rparr>)))))"

text \<open>\<open>max\<close> of an empty list raises \<open>ValueError\<close>.\<close>

definition get_max_ic :: "hpo \<Rightarrow> hpo \<Rightarrow> matcher \<Rightarrow> error + (real \<times> matcher)" where
  "get_max_ic term_1 term_2 st =
     (let (ancestors, s1) = find_common_ancestors term_1 term_2 (fst st)
      in and_then (for_loop (append_call calculate_information_content) ancestors ([], (s1, snd st)))
           (\<lambda>(ic_values, st').
              if ic_values = [] then Inl ValueError else Inr (Max (set ic_values), st')))"

section \<open>Scores of pairs and groups of probands: \<open>hpo_similarity.py\<close>\<close>

text \<open>
  \<open>geomean\<close>: the list comprehension raises \<open>ValueError\<close> at the first value that is not
  positive (\<open>math.log10\<close>); on an empty list the division by \<open>float(len(values))\<close> raises
  \<open>ZeroDivisionError\<close>.
\<close>

definition geomean :: "real list \<Rightarrow> error + real" where
  "geomean values =
     (if list_ex (\<lambda>x. x \<le> 0) values then Inl ValueError
      else if length values = 0 then Inl ZeroDivisionError
      else Inr (10 powr (sum_list (map (log 10) values) / real (length values))))"

definition get_score_for_pair :: "hpo list \<Rightarrow> hpo list \<Rightarrow> matcher \<Rightarrow> error + (real \<times> matcher)" where
  "get_score_for_pair proband_1 proband_2 st =
     and_then
       (for_loop (\<lambda>term_1. for_loop (append_call (get_max_ic term_1)) proband_2) proband_1 ([], st))
       (\<lambda>(ic, st'). and_then (geomean ic) (\<lambda>score. Inr (score, st')))"

text \<open>\<open>others\<close> is a copy of the list with position \<open>pos\<close> popped.\<close>

definition get_proband_similarity :: "hpo list list \<Rightarrow> matcher \<Rightarrow> error + (real \<times> matcher)" where
  "get_proband_similarity hpo_terms st =
     and_then
       (for_loop
          (\<lambda>pos.
             let proband = hpo_terms ! pos;
                 others = take pos hpo_terms @ drop (Suc pos) hpo_terms
             in for_loop (append_call (get_score_for_pair proband)) others)
          [0..<length hpo_terms] ([], st))
       (\<lambda>(ic_scores, st'). Inr (sum_list ic_scores, st'))"

section \<open>The group score of \<open>hpo_similarity/get_scores.py\<close>\<close>

text \<open>
  The second implementation of the two functions. It calls the method
  \<open>get_most_informative_ic\<close> of its \<open>hpo_graph\<close> object, which the class in
  \<open>src/similarity.py\<close> does not have: the method is a parameter here, and so is the
  type \<open>'m\<close> of the object's state. The pair score is the maximum over the pairs of terms;
  the group loop runs \<open>y\<close> over \<open>range(x, len(probands))\<close> and skips \<open>x == y\<close>.
\<close>

definition scores_get_score_for_pair ::
  "(hpo \<Rightarrow> hpo \<Rightarrow> 'm \<Rightarrow> error + (real \<times> 'm)) \<Rightarrow> hpo list \<Rightarrow> hpo list \<Rightarrow> 'm
    \<Rightarrow> error + (real \<times> 'm)" where
  "scores_get_score_for_pair get_most_informative_ic proband_1 proband_2 hpo_graph =
     and_then
       (for_loop (\<lambda>term_1. for_loop (append_call (get_most_informative_ic term_1)) proband_2)
          proband_1 ([], hpo_graph))
       (\<lambda>(ic, g'). if ic = [] then Inl ValueError else Inr (Max (set ic), g'))"

definition scores_get_proband_similarity ::
  "(hpo \<Rightarrow> hpo \<Rightarrow> 'm \<Rightarrow> error + (real \<times> 'm)) \<Rightarrow> hpo list list \<Rightarrow> 'm
    \<Rightarrow> error + (real \<times> 'm)" where
  "scores_get_proband_similarity get_most_informative_ic probands hpo_graph =
     and_then
       (for_loop
          (\<lambda>x. for_loop
                  (\<lambda>y acc.
                     if x = y then Inr acc
                     else append_call
                            (\<lambda>y. scores_get_score_for_pair get_most_informative_ic
                                    (probands ! x) (probands ! y)) y acc)
                  [x..<length probands])
          [0..<length probands] ([], hpo_graph))
       (\<lambda>(ic_scores, g'). Inr (sum_list ic_scores, g'))"

section \<open>The significance test\<close>

text \<open>
  \<open>bisect.bisect_left(a, x)\<close> of the Python library, with \<open>lo = 0\<close> and
  \<open>hi = len(a)\<close>: the loop \<open>while lo < hi: mid = (lo + hi) // 2;
  if a[mid] < x: lo = mid + 1 else: hi = mid\<close>, returning \<open>lo\<close>.
\<close>

function bisect_left_loop :: "real list \<Rightarrow> real \<Rightarrow> nat \<Rightarrow> nat \<Rightarrow> nat" where
  "bisect_left_loop a x lo hi =
     (if lo < hi then
        (let mid = (lo + hi) div 2
         in if a ! mid < x then bisect_left_loop a x (mid + 1) hi
            else bisect_left_loop a x lo mid)
      else lo)"
  by pat_completeness auto
termination
  by (relation "measure (\<lambda>(a, x, lo, hi). hi - lo)") auto

definition bisect_left :: "real list \<Rightarrow> real \<Rightarrow> nat" where
  "bisect_left a x = bisect_left_loop a x 0 (length a)"

text \<open>
  \<open>random.sample(population, k)\<close> raises \<open>ValueError\<close> when \<open>k\<close> exceeds the size of
  the population; otherwise it gives a list of \<open>k\<close> elements taken at distinct positions.
  The generator is a parameter of the model: \<open>rng i population k\<close> is what the
  call of the \<open>i\<close>-th simulation draws.
\<close>

type_synonym rng = "nat \<Rightarrow> string list \<Rightarrow> nat \<Rightarrow> string list"

definition random_sample :: "(string list \<Rightarrow> nat \<Rightarrow> string list) \<Rightarrow> string list \<Rightarrow> nat
    \<Rightarrow> error + string list" where
  "random_sample draw population k =
     (if length population < k then Inl ValueError else Inr (draw population k))"

definition family_lookup :: "family \<Rightarrow> string \<Rightarrow> error + hpo list" where
  "family_lookup family_hpo n =
     (case map_of family_hpo n of None \<Rightarrow> Inl KeyError | Some terms \<Rightarrow> Inr terms)"

text \<open>Lines 157 to 161: the sorted distribution, the insertion position of the observed
  score and the probability.\<close>

definition sim_prob :: "real list \<Rightarrow> real \<Rightarrow> real" where
  "sim_prob distribution observed =
     (let distribution = sort distribution;
          pos = bisect_left distribution observed
      in real_of_int \<bar>int pos - int (length distribution)\<bar>
           / real_of_int (1 + int (length distribution)))"

text \<open>The body of the simulation loop, lines 153 to 156.\<close>

definition simulate_once :: "rng \<Rightarrow> family \<Rightarrow> string list \<Rightarrow> string list \<Rightarrow> nat
    \<Rightarrow> real list \<times> matcher \<Rightarrow> error + (real list \<times> matcher)" where
  "simulate_once rng family_hpo other_probands probands x =
     (\<lambda>(distribution, st).
        and_then (random_sample (rng x) other_probands (length probands)) (\<lambda>sampled.
        and_then (collect (family_lookup family_hpo) sampled) (\<lambda>simulated.
        and_then (get_proband_similarity simulated st) (\<lambda>(predicted, st').
        Inr (distribution @ [predicted], st')))))"

definition test_similarity :: "rng \<Rightarrow> matcher \<Rightarrow> family \<Rightarrow> string list \<Rightarrow> nat
    \<Rightarrow> error + (real option \<times> matcher)" where
  "test_similarity rng st family_hpo probands n_sims =
     (let hpo_terms = List.map_filter (map_of family_hpo) probands;
          other_probands = filter (\<lambda>x. x \<notin> set probands) (map fst family_hpo)
      in if length hpo_terms = 1 then Inr (None, st)
         else
           and_then (get_proband_similarity hpo_terms st) (\<lambda>(observed, st1).
           and_then (for_loop (simulate_once rng family_hpo other_probands probands)
                       [0..<n_sims] ([], st1)) (\<lambda>(distribution, st2).
           Inr (Some (sim_prob distribution observed), st2))))"

section \<open>The scores without the caches\<close>

text \<open>
  What the cached methods compute, as functions of the graph and the frequency table
  (\<open>hpo_counts\<close> and \<open>total_freq\<close>) alone: the count of a term and of its descendants,
  the information content \<open>-log(count / total)\<close>, the common ancestors, the largest
  information content among them, the geometric mean over all pairs of terms of two
  probands, and the sum over a group.
\<close>

definition tallied :: "similarity \<Rightarrow> hpo \<Rightarrow> int" where
  "tallied s t = (case hpo_counts s t of Some k \<Rightarrow> k | None \<Rightarrow> 0)"

definition term_count :: "similarity \<Rightarrow> hpo \<Rightarrow> int" where
  "term_count s t =
     (if \<not> has_node (graph s) t then 0
      else tallied s t + sum_list (map (tallied s) (descendants (graph s) t)))"

definition information_content :: "similarity \<Rightarrow> hpo \<Rightarrow> error + real" where
  "information_content s t =
     (if \<not> has_node (graph s) t then Inr 0
      else if total_freq s = 0 then Inl ZeroDivisionError
      else if real_of_int (term_count s t) / real_of_int (total_freq s) \<le> 0 then Inl ValueError
      else Inr (- ln (real_of_int (term_count s t) / real_of_int (total_freq s))))"

definition common_ancestors :: "hpo_graph \<Rightarrow> hpo \<Rightarrow> hpo \<Rightarrow> hpo list" where
  "common_ancestors G term_1 term_2 =
     (if \<not> (has_node G term_1 \<and> has_node G term_2) then []
      else filter (\<lambda>a. a \<in> set (ancestors G term_2 @ [term_2])) (ancestors G term_1 @ [term_1]))"

definition max_ic :: "similarity \<Rightarrow> hpo \<Rightarrow> hpo \<Rightarrow> error + real" where
  "max_ic s term_1 term_2 =
     and_then (collect (information_content s) (common_ancestors (graph s) term_1 term_2))
       (\<lambda>ic_values. if ic_values = [] then Inl ValueError else Inr (Max (set ic_values)))"

definition pair_score :: "similarity \<Rightarrow> hpo list \<Rightarrow> hpo list \<Rightarrow> error + real" where
  "pair_score s proband_1 proband_2 =
     and_then (collect (\<lambda>term_1. collect (max_ic s term_1) proband_2) proband_1)
       (\<lambda>ics. geomean (concat ics))"

definition group_score :: "similarity \<Rightarrow> hpo list list \<Rightarrow> error + real" where
  "group_score s hpo_terms =
     and_then
       (collect (\<lambda>pos. collect (pair_score s (hpo_terms ! pos))
                         (take pos hpo_terms @ drop (Suc pos) hpo_terms))
          [0..<length hpo_terms])
       (\<lambda>scores. Inr (sum_list (concat scores)))"

text \<open>
  The caches of a matcher agree with the frequency table of \<open>s0\<close>: the matcher has the
  graph and the table of \<open>s0\<close>, and every cached value is the value computed from them.
\<close>

definition coherent :: "similarity \<Rightarrow> matcher \<Rightarrow> bool" where
  "coherent s0 st =
     (graph (fst st) = graph s0 \<and> hpo_counts (fst st) = hpo_counts s0 \<and>
      total_freq (fst st) = total_freq s0 \<and>
      (\<forall>t d. descendant_cache (fst st) t = Some d \<longrightarrow> d = descendants (graph s0) t) \<and>
      (\<forall>t a. ancestor_cache (fst st) t = Some a \<longrightarrow> a = ancestors (graph s0) t @ [t]) \<and>
      (\<forall>t n. counts_cache (snd st) t = Some n \<longrightarrow> n = term_count s0 t) \<and>
      (\<forall>t v. ic_cache (snd st) t = Some v \<longrightarrow> information_content s0 t = Inr v))"

text \<open>A stateful call \<open>m\<close> does what the function value \<open>r\<close> says, keeping \<open>I\<close>.\<close>

definition refines :: "('s \<Rightarrow> bool) \<Rightarrow> ('s \<Rightarrow> error + ('a \<times> 's)) \<Rightarrow> error + 'a \<Rightarrow> bool" where
  "refines I m r =
     (\<forall>st. I st \<longrightarrow>
        (case r of Inl e \<Rightarrow> m st = Inl e
         | Inr v \<Rightarrow> (\<exists>st'. m st = Inr (v, st') \<and> I st')))"

text \<open>A loop \<open>L\<close> appends the values \<open>r\<close> to its list, keeping \<open>I\<close>.\<close>

definition appends :: "('s \<Rightarrow> bool) \<Rightarrow> ('b list \<times> 's \<Rightarrow> error + ('b list \<times> 's)) \<Rightarrow> error + 'b list
    \<Rightarrow> bool" where
  "appends I L r =
     (\<forall>acc st. I st \<longrightarrow>
        (case r of Inl e \<Rightarrow> L (acc, st) = Inl e
         | Inr vs \<Rightarrow> (\<exists>st'. L (acc, st) = Inr (acc @ vs, st') \<and> I st')))"

text \<open>
  What a sequence of \<open>add_hpo\<close> calls on a fresh instance keeps true: finitely many
  terms have a count, every count is 1, and the counts sum to at most the total.
\<close>

definition tally_inv :: "similarity \<Rightarrow> bool" where
  "tally_inv s = (finite (dom (hpo_counts s)) \<and> (\<forall>t k. hpo_counts s t = Some k \<longrightarrow> k = 1) \<and>
     tally_sum s \<le> total_freq s)"

text \<open>
  The significance test as a function of the frequency table: the score of one simulated
  group, and the probability.
\<close>

definition simulated_score :: "rng \<Rightarrow> similarity \<Rightarrow> family \<Rightarrow> string list \<Rightarrow> string list \<Rightarrow> nat
    \<Rightarrow> error + real" where
  "simulated_score rng s family_hpo other_probands probands x =
     and_then (random_sample (rng x) other_probands (length probands)) (\<lambda>sampled.
     and_then (collect (family_lookup family_hpo) sampled) (group_score s))"

definition p_value :: "rng \<Rightarrow> similarity \<Rightarrow> family \<Rightarrow> string list \<Rightarrow> nat \<Rightarrow> error + real option" where
  "p_value rng s family_hpo probands n_sims =
     (let hpo_terms = List.map_filter (map_of family_hpo) probands;
          other_probands = filter (\<lambda>x. x \<notin> set probands) (map fst family_hpo)
      in if length hpo_terms = 1 then Inr None
         else
           and_then (group_score s hpo_terms) (\<lambda>observed.
           and_then (collect (simulated_score rng s family_hpo other_probands probands) [0..<n_sims])
             (\<lambda>distribution. Inr (Some (sim_prob distribution observed)))))"

section \<open>Fixtures\<close>

text \<open>A five-term excerpt of the ontology: the root, \<open>HP:0000118\<close> below it, with the
  subterms \<open>HP:0000707\<close> (which has the subterm \<open>HP:0002011\<close>) and \<open>HP:0000924\<close>.\<close>

definition hpo_fixture :: hpo_graph where
  "hpo_fixture =
     \<lparr>nodes = [''HP:0000001'', ''HP:0000118'', ''HP:0000707'', ''HP:0000924'', ''HP:0002011''],
      edges = [(''HP:0000001'', ''HP:0000118''), (''HP:0000118'', ''HP:0000707''),
               (''HP:0000118'', ''HP:0000924''), (''HP:0000707'', ''HP:0002011'')]\<rparr>"

text \<open>Populations: two probands with the same term, four probands with the same term,
  two probands with different terms, and a single proband.\<close>

definition family_same :: family where
  "family_same = [(''person_01'', [''HP:0000118'']), (''person_02'', [''HP:0000118''])]"

definition family_four :: family where
  "family_four = [(''person_01'', [''HP:0000118'']), (''person_02'', [''HP:0000118'']),
                  (''person_03'', [''HP:0000118'']), (''person_04'', [''HP:0000118''])]"

definition family_distinct :: family where
  "family_distinct = [(''person_01'', [''HP:0000707'']), (''person_02'', [''HP:0000924''])]"

definition family_one :: family where
  "family_one = [(''person_01'', [''HP:0000707''])]"

text \<open>A run of the program up to the end of its build phase, as \<open>main\<close> does it: a matcher
  constructed over the fixture graph, then the tally of the population.\<close>

definition built :: "family \<Rightarrow> ic_class \<Rightarrow> matcher" where
  "built fam cls = tally fam (ICSimilarity_init fam hpo_fixture Map.empty cls)"

text \<open>A generator that draws the first \<open>k\<close> elements of the population every time.\<close>

definition first_k :: rng where
  "first_k i population k = take k population"

section \<open>Tallying\<close>

lemma add_hpo_new_term:
  "has_node (graph s) t \<Longrightarrow> hpo_counts s t = None \<Longrightarrow>
   add_hpo t s = s\<lparr>hpo_counts := (hpo_counts s)(t \<mapsto> 1), total_freq := total_freq s + 1\<rparr>"
  by (simp add: add_hpo_def)

lemma add_hpo_known_term:
  "hpo_counts s t = Some c \<Longrightarrow> add_hpo t s = s\<lparr>total_freq := total_freq s + 1\<rparr>"
  by (simp add: add_hpo_def)

lemma add_hpo_absent_term:
  "\<not> has_node (graph s) t \<Longrightarrow> hpo_counts s t = None \<Longrightarrow> add_hpo t s = s"
  by (simp add: add_hpo_def)

section \<open>The cached methods compute the scores\<close>

text \<open>
  From a state whose caches agree with the frequency table, each cached method returns
  what the corresponding function of the table gives (or raises what it raises) and
  leaves such a state behind; loops of such calls collect the values of the function.
\<close>

lemma and_then_Inl [simp]: "and_then (Inl e) f = Inl e"
  by (simp add: and_then_def)

lemma and_then_Inr [simp]: "and_then (Inr v) f = f v"
  by (simp add: and_then_def)

lemma outcome_Inl [simp]: "outcome (Inl e) = Inl e"
  by (simp add: outcome_def)

lemma outcome_Inr [simp]: "outcome (Inr (v, st)) = Inr v"
  by (simp add: outcome_def)

lemma foldl_tallied:
  "foldl (\<lambda>count subterm. case hpo_counts s subterm of Some k \<Rightarrow> count + k | None \<Rightarrow> count) c ds
     = c + sum_list (map (tallied s) ds)"
  by (induction ds arbitrary: c) (auto simp: tallied_def split: option.splits)

lemma coherent_get_subterms:
  assumes "coherent s0 (s, c)"
  shows "fst (get_subterms t s) = descendants (graph s0) t \<and> coherent s0 (snd (get_subterms t s), c)"
  using assms by (auto simp: coherent_def get_subterms_def Let_def split: option.splits)

lemma coherent_get_ancestors:
  assumes "coherent s0 (s, c)"
  shows "fst (get_ancestors t s) = ancestors (graph s0) t @ [t] \<and> coherent s0 (snd (get_ancestors t s), c)"
  using assms by (auto simp: coherent_def get_ancestors_def Let_def split: option.splits)

lemma coherent_find_common_ancestors:
  assumes "coherent s0 (s, c)"
  shows "fst (find_common_ancestors t1 t2 s) = common_ancestors (graph s0) t1 t2 \<and>
         coherent s0 (snd (find_common_ancestors t1 t2 s), c)"
proof (cases "has_node (graph s) t1 \<and> has_node (graph s) t2")
  case False
  with assms show ?thesis
    by (auto simp: find_common_ancestors_def common_ancestors_def coherent_def)
next
  case True
  obtain a1 s1 where g1: "get_ancestors t1 s = (a1, s1)" by (cases "get_ancestors t1 s")
  obtain a2 s2 where g2: "get_ancestors t2 s1 = (a2, s2)" by (cases "get_ancestors t2 s1")
  from coherent_get_ancestors [OF assms, of t1] g1
  have a1: "a1 = ancestors (graph s0) t1 @ [t1]" and c1: "coherent s0 (s1, c)" by simp_all
  from coherent_get_ancestors [OF c1, of t2] g2
  have a2: "a2 = ancestors (graph s0) t2 @ [t2]" and c2: "coherent s0 (s2, c)" by simp_all
  have G: "graph s = graph s0" using assms by (simp add: coherent_def)
  show ?thesis using True g1 g2 a1 a2 c2 G
    by (simp add: find_common_ancestors_def common_ancestors_def)
qed

lemma coherent_get_term_count:
  assumes "coherent s0 st"
  shows "fst (get_term_count t st) = term_count s0 t \<and> coherent s0 (snd (get_term_count t st))"
proof (cases "counts_cache (snd st) t")
  case (Some n)
  with assms show ?thesis by (simp add: get_term_count_def coherent_def)
next
  case None
  note miss = this
  have G: "graph (fst st) = graph s0" and H: "hpo_counts (fst st) = hpo_counts s0"
    using assms by (simp_all add: coherent_def)
  show ?thesis
  proof (cases "has_node (graph (fst st)) t")
    case False
    with miss assms G show ?thesis by (simp add: get_term_count_def term_count_def)
  next
    case True
    obtain d s1 where gs: "get_subterms t (fst st) = (d, s1)" by (cases "get_subterms t (fst st)")
    have "coherent s0 (fst st, snd st)" using assms by simp
    from coherent_get_subterms [OF this, of t] gs
    have d: "d = descendants (graph s0) t" and c1: "coherent s0 (s1, snd st)" by simp_all
    have H1: "hpo_counts s1 = hpo_counts s0" using c1 by (simp add: coherent_def)
    have tal: "tallied s1 = tallied s0" by (rule ext) (simp add: tallied_def H1)
    have val: "fst (get_term_count t st) = term_count s0 t"
      using miss True gs d G
      by (simp add: get_term_count_def term_count_def foldl_tallied Let_def tal H1)
        (simp add: tallied_def split: option.splits)
    have st': "snd (get_term_count t st) =
        (s1, (snd st)\<lparr>counts_cache := (counts_cache (snd st))(t \<mapsto> term_count s0 t)\<rparr>)"
      using miss True gs val by (simp add: get_term_count_def Let_def split: option.splits)
    have "coherent s0 (s1, (snd st)\<lparr>counts_cache := (counts_cache (snd st))(t \<mapsto> term_count s0 t)\<rparr>)"
      using c1 by (auto simp: coherent_def)
    with val st' show ?thesis by simp
  qed
qed

lemma refines_calculate_information_content:
  "refines (coherent s0) (calculate_information_content t) (information_content s0 t)"
  unfolding refines_def
proof (intro allI impI)
  fix st assume coh: "coherent s0 st"
  show "case information_content s0 t of Inl e \<Rightarrow> calculate_information_content t st = Inl e
        | Inr v \<Rightarrow> \<exists>st'. calculate_information_content t st = Inr (v, st') \<and> coherent s0 st'"
  proof (cases "ic_cache (snd st) t")
    case (Some v)
    with coh have "information_content s0 t = Inr v" by (simp add: coherent_def)
    with Some coh show ?thesis by (simp add: calculate_information_content_def)
  next
    case None
    obtain n st1 where gt: "get_term_count t st = (n, st1)" by (cases "get_term_count t st")
    from coherent_get_term_count [OF coh, of t] gt
    have n: "n = term_count s0 t" and c1: "coherent s0 st1" by simp_all
    have G: "graph (fst st1) = graph s0" and T: "total_freq (fst st1) = total_freq s0"
      using c1 by (simp_all add: coherent_def)
    have upd: "\<And>v. information_content s0 t = Inr v \<Longrightarrow>
        coherent s0 (fst st1, (snd st1)\<lparr>ic_cache := (ic_cache (snd st1))(t \<mapsto> v)\<rparr>)"
      using c1 by (auto simp: coherent_def)
    show ?thesis
      using None gt n c1 G T upd
      by (auto simp: calculate_information_content_def information_content_def Let_def)
  qed
qed

lemma refinesD_Inr:
  "refines I m r \<Longrightarrow> r = Inr v \<Longrightarrow> I st \<Longrightarrow> \<exists>st'. m st = Inr (v, st') \<and> I st'"
  by (auto simp: refines_def)

lemma refinesD_Inl:
  "refines I m r \<Longrightarrow> r = Inl e \<Longrightarrow> I st \<Longrightarrow> m st = Inl e"
  by (auto simp: refines_def)

lemma appendsD_Inr:
  "appends I L r \<Longrightarrow> r = Inr vs \<Longrightarrow> I st \<Longrightarrow> \<exists>st'. L (acc, st) = Inr (acc @ vs, st') \<and> I st'"
  by (auto simp: appends_def)

lemma appendsD_Inl:
  "appends I L r \<Longrightarrow> r = Inl e \<Longrightarrow> I st \<Longrightarrow> L (acc, st) = Inl e"
  by (auto simp: appends_def)

lemma appends_append_call:
  assumes "\<And>x. x \<in> set xs \<Longrightarrow> refines I (f x) (g x)"
  shows "appends I (for_loop (append_call f) xs) (collect g xs)"
  using assms
proof (induction xs)
  case Nil
  show ?case by (simp add: appends_def)
next
  case (Cons x xs)
  have rx: "refines I (f x) (g x)" using Cons.prems by simp
  have IH: "appends I (for_loop (append_call f) xs) (collect g xs)"
    using Cons by simp
  show ?case
    unfolding appends_def
  proof (intro allI impI)
    fix acc st assume I: "I st"
    show "case collect g (x # xs) of
            Inl e \<Rightarrow> for_loop (append_call f) (x # xs) (acc, st) = Inl e
          | Inr vs \<Rightarrow> \<exists>st'. for_loop (append_call f) (x # xs) (acc, st) = Inr (acc @ vs, st') \<and> I st'"
    proof (cases "g x")
      case (Inl e)
      with refinesD_Inl [OF rx Inl I] show ?thesis by (simp add: append_call_def)
    next
      case (Inr v)
      from refinesD_Inr [OF rx Inr I] obtain st1 where
        fx: "f x st = Inr (v, st1)" and I1: "I st1" by blast
      show ?thesis
      proof (cases "collect g xs")
        case (Inl e)
        from appendsD_Inl [OF IH Inl I1, of "acc @ [v]"] Inr Inl fx
        show ?thesis by (simp add: append_call_def)
      next
        case (Inr vs)
        from appendsD_Inr [OF IH Inr I1, of "acc @ [v]"] \<open>g x = Inr v\<close> Inr fx
        show ?thesis by (simp add: append_call_def)
      qed
    qed
  qed
qed

lemma appends_nested:
  assumes "\<And>x. x \<in> set xs \<Longrightarrow> appends I (body x) (r x)"
  shows "appends I (for_loop body xs) (and_then (collect r xs) (\<lambda>vss. Inr (concat vss)))"
  using assms
proof (induction xs)
  case Nil
  show ?case by (simp add: appends_def)
next
  case (Cons x xs)
  have ax: "appends I (body x) (r x)" using Cons.prems by simp
  have IH: "appends I (for_loop body xs) (and_then (collect r xs) (\<lambda>vss. Inr (concat vss)))"
    using Cons by simp
  show ?case
    unfolding appends_def
  proof (intro allI impI)
    fix acc st assume I: "I st"
    show "case and_then (collect r (x # xs)) (\<lambda>vss. Inr (concat vss)) of
            Inl e \<Rightarrow> for_loop body (x # xs) (acc, st) = Inl e
          | Inr vs \<Rightarrow> \<exists>st'. for_loop body (x # xs) (acc, st) = Inr (acc @ vs, st') \<and> I st'"
    proof (cases "r x")
      case (Inl e)
      with appendsD_Inl [OF ax Inl I, of acc] show ?thesis by simp
    next
      case (Inr v)
      from appendsD_Inr [OF ax Inr I, of acc] obtain st1 where
        bx: "body x (acc, st) = Inr (acc @ v, st1)" and I1: "I st1" by blast
      show ?thesis
      proof (cases "collect r xs")
        case (Inl e)
        then have "and_then (collect r xs) (\<lambda>vss. Inr (concat vss)) = Inl e" by simp
        from appendsD_Inl [OF IH this I1, of "acc @ v"] Inr Inl bx
        show ?thesis by simp
      next
        case (Inr vss)
        then have "and_then (collect r xs) (\<lambda>vss. Inr (concat vss)) = Inr (concat vss)" by simp
        from appendsD_Inr [OF IH this I1, of "acc @ v"] \<open>r x = Inr v\<close> Inr bx
        show ?thesis by simp
      qed
    qed
  qed
qed

lemma refines_of_appends:
  assumes "appends I L r"
    and "\<And>vs st'. k (vs, st') = and_then (h vs) (\<lambda>v. Inr (v, st'))"
  shows "refines I (\<lambda>st. and_then (L ([], st)) k) (and_then r h)"
  unfolding refines_def
proof (intro allI impI)
  fix st assume I: "I st"
  show "case and_then r h of Inl e \<Rightarrow> and_then (L ([], st)) k = Inl e
        | Inr v \<Rightarrow> \<exists>st'. and_then (L ([], st)) k = Inr (v, st') \<and> I st'"
  proof (cases r)
    case (Inl e)
    with appendsD_Inl [OF assms(1) Inl I, of "[]"] show ?thesis by simp
  next
    case (Inr vs)
    from appendsD_Inr [OF assms(1) Inr I, of "[]"] obtain st1 where
      L: "L ([], st) = Inr (vs, st1)" and I1: "I st1" by auto
    show ?thesis using Inr L I1 assms(2) by (cases "h vs") auto
  qed
qed

lemma refines_get_max_ic:
  "refines (coherent s0) (get_max_ic t1 t2) (max_ic s0 t1 t2)"
  unfolding refines_def
proof (intro allI impI)
  fix st assume coh: "coherent s0 st"
  obtain anc s1 where fc: "find_common_ancestors t1 t2 (fst st) = (anc, s1)"
    by (cases "find_common_ancestors t1 t2 (fst st)")
  have "coherent s0 (fst st, snd st)" using coh by simp
  from coherent_find_common_ancestors [OF this, of t1 t2] fc
  have anc: "anc = common_ancestors (graph s0) t1 t2" and c1: "coherent s0 (s1, snd st)"
    by simp_all
  let ?k = "\<lambda>(ic_values, st'). if ic_values = [] then Inl ValueError
                                   else Inr (Max (set ic_values), st')"
  have eq: "get_max_ic t1 t2 st =
      and_then (for_loop (append_call calculate_information_content) anc ([], (s1, snd st))) ?k"
    using fc by (simp add: get_max_ic_def)
  have ap: "appends (coherent s0) (for_loop (append_call calculate_information_content) anc)
              (collect (information_content s0) anc)"
    by (rule appends_append_call) (rule refines_calculate_information_content)
  have "refines (coherent s0)
          (\<lambda>st. and_then (for_loop (append_call calculate_information_content) anc ([], st)) ?k)
          (and_then (collect (information_content s0) anc)
             (\<lambda>ic_values. if ic_values = [] then Inl ValueError else Inr (Max (set ic_values))))"
    by (rule refines_of_appends [OF ap]) simp
  from this [unfolded refines_def, rule_format, OF c1]
  show "case max_ic s0 t1 t2 of Inl e \<Rightarrow> get_max_ic t1 t2 st = Inl e
        | Inr v \<Rightarrow> \<exists>st'. get_max_ic t1 t2 st = Inr (v, st') \<and> coherent s0 st'"
    unfolding eq max_ic_def anc .
qed

lemma refines_get_score_for_pair:
  "refines (coherent s0) (get_score_for_pair p1 p2) (pair_score s0 p1 p2)"
proof -
  have inner: "\<And>t1. appends (coherent s0) (for_loop (append_call (get_max_ic t1)) p2)
                  (collect (max_ic s0 t1) p2)"
    by (rule appends_append_call) (rule refines_get_max_ic)
  have outer: "appends (coherent s0)
                 (for_loop (\<lambda>term_1. for_loop (append_call (get_max_ic term_1)) p2) p1)
                 (and_then (collect (\<lambda>term_1. collect (max_ic s0 term_1) p2) p1)
                    (\<lambda>vss. Inr (concat vss)))"
    by (rule appends_nested) (rule inner)
  have "refines (coherent s0)
          (\<lambda>st. and_then
                   (for_loop (\<lambda>term_1. for_loop (append_call (get_max_ic term_1)) p2) p1 ([], st))
                   (\<lambda>(ic, st'). and_then (geomean ic) (\<lambda>score. Inr (score, st'))))
          (and_then (and_then (collect (\<lambda>term_1. collect (max_ic s0 term_1) p2) p1)
                      (\<lambda>vss. Inr (concat vss))) geomean)"
    by (rule refines_of_appends [OF outer]) simp
  moreover have "and_then (and_then (collect (\<lambda>term_1. collect (max_ic s0 term_1) p2) p1)
                      (\<lambda>vss. Inr (concat vss))) geomean = pair_score s0 p1 p2"
    by (cases "collect (\<lambda>term_1. collect (max_ic s0 term_1) p2) p1") (simp_all add: pair_score_def)
  ultimately show ?thesis
    by (simp add: get_score_for_pair_def [abs_def])
qed

lemma refines_get_proband_similarity:
  "refines (coherent s0) (get_proband_similarity xs) (group_score s0 xs)"
proof -
  let ?others = "\<lambda>pos. take pos xs @ drop (Suc pos) xs"
  have inner: "\<And>pos. appends (coherent s0)
                  (for_loop (append_call (get_score_for_pair (xs ! pos))) (?others pos))
                  (collect (pair_score s0 (xs ! pos)) (?others pos))"
    by (rule appends_append_call) (rule refines_get_score_for_pair)
  have outer: "appends (coherent s0)
                 (for_loop (\<lambda>pos. for_loop (append_call (get_score_for_pair (xs ! pos))) (?others pos))
                    [0..<length xs])
                 (and_then (collect (\<lambda>pos. collect (pair_score s0 (xs ! pos)) (?others pos))
                              [0..<length xs])
                    (\<lambda>vss. Inr (concat vss)))"
    by (rule appends_nested) (rule inner)
  have "refines (coherent s0)
          (\<lambda>st. and_then
                   (for_loop (\<lambda>pos. for_loop (append_call (get_score_for_pair (xs ! pos))) (?others pos))
                      [0..<length xs] ([], st))
                   (\<lambda>(ic_scores, st'). Inr (sum_list ic_scores, st')))
          (and_then (and_then (collect (\<lambda>pos. collect (pair_score s0 (xs ! pos)) (?others pos))
                              [0..<length xs])
                      (\<lambda>vss. Inr (concat vss))) (\<lambda>vs. Inr (sum_list vs)))"
    by (rule refines_of_appends [OF outer]) simp
  moreover have "and_then (and_then (collect (\<lambda>pos. collect (pair_score s0 (xs ! pos)) (?others pos))
                              [0..<length xs])
                      (\<lambda>vss. Inr (concat vss))) (\<lambda>vs. Inr (sum_list vs)) = group_score s0 xs"
    by (cases "collect (\<lambda>pos. collect (pair_score s0 (xs ! pos)) (?others pos)) [0..<length xs]")
      (simp_all add: group_score_def)
  ultimately show ?thesis
    by (simp add: get_proband_similarity_def [abs_def] Let_def)
qed

lemma simulate_once_append_call:
  "simulate_once rng fam other probands =
     append_call (\<lambda>x st. and_then (random_sample (rng x) other (length probands)) (\<lambda>sampled.
                           and_then (collect (family_lookup fam) sampled) (\<lambda>simulated.
                           get_proband_similarity simulated st)))"
proof (intro ext)
  fix x :: nat and a :: "real list \<times> matcher"
  obtain distribution st where a: "a = (distribution, st)" by (cases a)
  show "simulate_once rng fam other probands x a =
     append_call (\<lambda>x st. and_then (random_sample (rng x) other (length probands)) (\<lambda>sampled.
                           and_then (collect (family_lookup fam) sampled) (\<lambda>simulated.
                           get_proband_similarity simulated st))) x a"
  proof (cases "random_sample (rng x) other (length probands)")
    case (Inl e)
    then show ?thesis by (simp add: a simulate_once_def append_call_def)
  next
    case (Inr sampled)
    then show ?thesis
      by (cases "collect (family_lookup fam) sampled")
        (simp_all add: a simulate_once_def append_call_def)
  qed
qed

lemma refines_simulated_score:
  "refines (coherent s0)
     (\<lambda>st. and_then (random_sample (rng x) other (length probands)) (\<lambda>sampled.
            and_then (collect (family_lookup fam) sampled) (\<lambda>simulated.
            get_proband_similarity simulated st)))
     (simulated_score rng s0 fam other probands x)"
proof (cases "random_sample (rng x) other (length probands)")
  case (Inl e)
  then show ?thesis by (simp add: refines_def simulated_score_def)
next
  case sampled: (Inr sampled)
  show ?thesis
  proof (cases "collect (family_lookup fam) sampled")
    case (Inl e)
    with sampled show ?thesis by (simp add: refines_def simulated_score_def)
  next
    case (Inr simulated)
    with sampled refines_get_proband_similarity [of s0 simulated]
    show ?thesis by (simp add: refines_def simulated_score_def)
  qed
qed

lemma refines_test_similarity:
  "refines (coherent s0) (\<lambda>st. test_similarity rng st fam probands n_sims)
     (p_value rng s0 fam probands n_sims)"
  unfolding refines_def
proof (intro allI impI)
  fix st assume coh: "coherent s0 st"
  let ?terms = "List.map_filter (map_of fam) probands"
  let ?other = "filter (\<lambda>x. x \<notin> set probands) (map fst fam)"
  let ?goal = "case p_value rng s0 fam probands n_sims of
          Inl e \<Rightarrow> test_similarity rng st fam probands n_sims = Inl e
        | Inr v \<Rightarrow> \<exists>st'. test_similarity rng st fam probands n_sims = Inr (v, st') \<and> coherent s0 st'"
  have loop: "appends (coherent s0) (for_loop (simulate_once rng fam ?other probands) [0..<n_sims])
                (collect (simulated_score rng s0 fam ?other probands) [0..<n_sims])"
    unfolding simulate_once_append_call
    by (rule appends_append_call) (rule refines_simulated_score)
  show ?goal
  proof (cases "length ?terms = 1")
    case True
    with coh show ?thesis by (simp add: test_similarity_def p_value_def)
  next
    case False
    show ?thesis
    proof (cases "group_score s0 ?terms")
      case (Inl e)
      from refinesD_Inl [OF refines_get_proband_similarity Inl coh] False Inl
      show ?thesis by (simp add: test_similarity_def p_value_def)
    next
      case (Inr observed)
      from refinesD_Inr [OF refines_get_proband_similarity Inr coh] obtain st1 where
        obs: "get_proband_similarity ?terms st = Inr (observed, st1)" and c1: "coherent s0 st1"
        by blast
      show ?thesis
      proof (cases "collect (simulated_score rng s0 fam ?other probands) [0..<n_sims]")
        case (Inl e)
        from appendsD_Inl [OF loop Inl c1, of "[]"] False Inr obs Inl
        show ?thesis by (simp add: test_similarity_def p_value_def)
      next
        case sims: (Inr distribution)
        from appendsD_Inr [OF loop sims c1, of "[]"] obtain st2 where
          "for_loop (simulate_once rng fam ?other probands) [0..<n_sims] ([], st1)
             = Inr (distribution, st2)" and "coherent s0 st2" by auto
        with False Inr obs sims
        show ?thesis by (simp add: test_similarity_def p_value_def)
      qed
    qed
  qed
qed

section \<open>The build phase\<close>

text \<open>
  The tally keeps \<open>tally_inv\<close> and leaves the caches alone, so that after it the count
  of a term with its descendants is at most the total.
\<close>

lemma tally_inv_init: "tally_inv (CalculateSimilarity_init fam G alt)"
  by (simp add: tally_inv_def CalculateSimilarity_init_def tally_sum_def)

lemma tally_sum_new_term:
  assumes "finite (dom (hpo_counts s))" "hpo_counts s t = None"
  shows "tally_sum (s\<lparr>hpo_counts := (hpo_counts s)(t \<mapsto> k), total_freq := n\<rparr>) = k + tally_sum s"
proof -
  have t: "t \<notin> dom (hpo_counts s)" using assms(2) by auto
  have "(\<Sum>u \<in> dom (hpo_counts s). the (((hpo_counts s)(t \<mapsto> k)) u))
      = (\<Sum>u \<in> dom (hpo_counts s). the (hpo_counts s u))"
    by (rule sum.cong) (use t in auto)
  then show ?thesis using assms(1) t by (simp add: tally_sum_def)
qed

lemma tally_inv_add_hpo: "tally_inv s \<Longrightarrow> tally_inv (add_hpo t s)"
proof -
  assume inv: "tally_inv s"
  show ?thesis
  proof (cases "hpo_counts s t")
    case (Some c)
    with inv show ?thesis by (simp add: add_hpo_known_term tally_inv_def tally_sum_def)
  next
    case None
    show ?thesis
    proof (cases "has_node (graph s) t")
      case False
      with None inv show ?thesis by (simp add: add_hpo_absent_term)
    next
      case True
      have fin: "finite (dom (hpo_counts s))" using inv by (simp add: tally_inv_def)
      from tally_sum_new_term [OF fin None, where k = 1 and n = "total_freq s + 1"] inv True None
      show ?thesis by (auto simp: add_hpo_new_term tally_inv_def)
    qed
  qed
qed

lemma tally_inv_foldl: "tally_inv s \<Longrightarrow> tally_inv (foldl (\<lambda>s t. add_hpo t s) s ts)"
  by (induction ts arbitrary: s) (simp_all add: tally_inv_add_hpo)

lemma tally_inv_tally_hpo_terms: "tally_inv s \<Longrightarrow> tally_inv (tally_hpo_terms fam s)"
  unfolding tally_hpo_terms_def
  by (induction fam arbitrary: s) (simp_all add: tally_inv_foldl)

lemma distinct_descendants: "distinct (t # descendants G t)"
  by (simp add: descendants_def)

lemma tallied_nonneg: "tally_inv s \<Longrightarrow> 0 \<le> tallied s t"
proof (cases "hpo_counts s t")
  case None
  then show ?thesis by (simp add: tallied_def)
next
  case (Some k)
  assume "tally_inv s"
  with Some have "k = 1" unfolding tally_inv_def by blast
  with Some show ?thesis by (simp add: tallied_def)
qed

lemma sum_tallied_le:
  assumes "tally_inv s" "finite A"
  shows "(\<Sum>t \<in> A. tallied s t) \<le> tally_sum s"
proof -
  have fin: "finite (dom (hpo_counts s))" using assms(1) by (simp add: tally_inv_def)
  have "(\<Sum>t \<in> A. tallied s t) = (\<Sum>t \<in> A \<inter> dom (hpo_counts s). tallied s t)"
    by (rule sum.mono_neutral_right) (use assms(2) in \<open>auto simp: tallied_def split: option.splits\<close>)
  also have "\<dots> \<le> (\<Sum>t \<in> dom (hpo_counts s). tallied s t)"
    by (rule sum_mono2) (use fin assms(1) in \<open>auto simp: tallied_nonneg\<close>)
  also have "\<dots> = tally_sum s"
    unfolding tally_sum_def by (rule sum.cong) (auto simp: tallied_def)
  finally show ?thesis .
qed

lemma term_count_le_total:
  assumes "tally_inv s"
  shows "term_count s t \<le> total_freq s"
proof (cases "has_node (graph s) t")
  case False
  have "0 \<le> tally_sum s"
    using sum_tallied_le [OF assms, of "{}"] by simp
  with False assms show ?thesis by (simp add: term_count_def tally_inv_def)
next
  case True
  have "term_count s t = sum_list (map (tallied s) (t # descendants (graph s) t))"
    using True by (simp add: term_count_def)
  also have "\<dots> = (\<Sum>u \<in> set (t # descendants (graph s) t). tallied s u)"
    by (rule sum_list_distinct_conv_sum_set) (rule distinct_descendants)
  also have "\<dots> \<le> tally_sum s"
    by (rule sum_tallied_le [OF assms]) simp
  finally show ?thesis using assms by (simp add: tally_inv_def)
qed

lemma information_content_defined:
  assumes "tally_inv s" "0 < term_count s t"
  shows "information_content s t =
           Inr (- ln (real_of_int (term_count s t) / real_of_int (total_freq s))) \<and>
         0 \<le> - ln (real_of_int (term_count s t) / real_of_int (total_freq s))"
proof -
  have le: "term_count s t \<le> total_freq s" by (rule term_count_le_total [OF assms(1)])
  have node: "has_node (graph s) t" using assms(2) by (auto simp: term_count_def split: if_splits)
  have pos: "0 < total_freq s" using le assms(2) by simp
  have q: "0 < real_of_int (term_count s t) / real_of_int (total_freq s)"
    using assms(2) pos by simp
  have q1: "real_of_int (term_count s t) / real_of_int (total_freq s) \<le> 1"
    using le pos by simp
  have "ln (real_of_int (term_count s t) / real_of_int (total_freq s)) \<le> 0"
    using q q1 by simp
  with node pos q show ?thesis by (simp add: information_content_def)
qed

section \<open>Facts about the fixtures\<close>

lemma outcome_refines: "refines I m r \<Longrightarrow> I st \<Longrightarrow> outcome (m st) = r"
  by (cases r) (auto simp: refines_def)

lemma add_hpo_caches [simp]:
  "descendant_cache (add_hpo t s) = descendant_cache s"
  "ancestor_cache (add_hpo t s) = ancestor_cache s"
  "graph (add_hpo t s) = graph s"
  by (simp_all add: add_hpo_def Let_def)

lemma foldl_add_hpo_caches [simp]:
  "descendant_cache (foldl (\<lambda>s t. add_hpo t s) s ts) = descendant_cache s"
  "ancestor_cache (foldl (\<lambda>s t. add_hpo t s) s ts) = ancestor_cache s"
  "graph (foldl (\<lambda>s t. add_hpo t s) s ts) = graph s"
  by (induction ts arbitrary: s) simp_all

lemma tally_hpo_terms_caches [simp]:
  "descendant_cache (tally_hpo_terms fam s) = descendant_cache s"
  "ancestor_cache (tally_hpo_terms fam s) = ancestor_cache s"
  "graph (tally_hpo_terms fam s) = graph s"
  unfolding tally_hpo_terms_def by (induction fam arbitrary: s) simp_all

lemma coherent_fresh:
  "descendant_cache s = Map.empty \<Longrightarrow> ancestor_cache s = Map.empty \<Longrightarrow>
   coherent s (s, class_definition)"
  by (simp add: coherent_def class_definition_def)

lemma coherent_built: "coherent (fst (built fam class_definition)) (built fam class_definition)"
proof -
  have "coherent (fst (built fam class_definition)) (fst (built fam class_definition), class_definition)"
    by (rule coherent_fresh)
      (simp_all add: built_def tally_def ICSimilarity_init_def CalculateSimilarity_init_def)
  then show ?thesis by (simp add: built_def tally_def ICSimilarity_init_def)
qed

lemma descendants_fixture:
  "descendants hpo_fixture ''HP:0000001'' = [''HP:0000118'', ''HP:0000707'', ''HP:0000924'', ''HP:0002011'']"
  "descendants hpo_fixture ''HP:0000118'' = [''HP:0000707'', ''HP:0000924'', ''HP:0002011'']"
  "descendants hpo_fixture ''HP:0000707'' = [''HP:0002011'']"
  "descendants hpo_fixture ''HP:0000924'' = []"
  "descendants hpo_fixture ''HP:0002011'' = []"
  by code_simp+

lemma ancestors_fixture:
  "ancestors hpo_fixture ''HP:0000001'' = []"
  "ancestors hpo_fixture ''HP:0000118'' = [''HP:0000001'']"
  "ancestors hpo_fixture ''HP:0000707'' = [''HP:0000001'', ''HP:0000118'']"
  "ancestors hpo_fixture ''HP:0000924'' = [''HP:0000001'', ''HP:0000118'']"
  "ancestors hpo_fixture ''HP:0002011'' = [''HP:0000001'', ''HP:0000118'', ''HP:0000707'']"
  by code_simp+

lemma has_node_fixture:
  "has_node hpo_fixture t \<longleftrightarrow> t \<in> {''HP:0000001'', ''HP:0000118'', ''HP:0000707'', ''HP:0000924'', ''HP:0002011''}"
  by (simp add: has_node_def hpo_fixture_def)

lemma built_same:
  "fst (built family_same cls) =
     \<lparr>graph = hpo_fixture, family_hpos = family_same, alt_node_ids = Map.empty,
      descendant_cache = Map.empty, ancestor_cache = Map.empty,
      hpo_counts = [''HP:0000118'' \<mapsto> 1], total_freq = 2\<rparr>"
  by (simp add: built_def tally_def ICSimilarity_init_def CalculateSimilarity_init_def
      tally_hpo_terms_def family_same_def add_hpo_def has_node_fixture)

lemma ic_same_root:
  "information_content (fst (built family_same cls)) ''HP:0000001'' = Inr (ln 2)"
  by (simp add: built_same information_content_def term_count_def tallied_def has_node_fixture
      descendants_fixture ln_div)

section \<open>The insertion position\<close>

text \<open>
  On a sorted list the binary search stops at the position that separates the elements
  strictly less than \<open>x\<close> from the others, which is the number of elements strictly
  less than \<open>x\<close>.
\<close>

declare bisect_left_loop.simps [simp del]

lemma bisect_left_loop_partition:
  assumes "sorted a" "lo \<le> hi" "hi \<le> length a"
    and "\<forall>i<lo. a ! i < x"
    and "\<forall>i. hi \<le> i \<and> i < length a \<longrightarrow> \<not> a ! i < x"
  shows "bisect_left_loop a x lo hi \<le> length a \<and>
         (\<forall>i<bisect_left_loop a x lo hi. a ! i < x) \<and>
         (\<forall>i. bisect_left_loop a x lo hi \<le> i \<and> i < length a \<longrightarrow> \<not> a ! i < x)"
  using assms
proof (induction a x lo hi rule: bisect_left_loop.induct)
  case (1 a x lo hi)
  show ?case
  proof (cases "lo < hi")
    case False
    then have stop: "bisect_left_loop a x lo hi = lo"
      by (simp add: bisect_left_loop.simps [of a x lo hi])
    from False "1.prems" have "lo = hi" by simp
    with "1.prems" show ?thesis unfolding stop by simp
  next
    case True
    define mid where "mid = (lo + hi) div 2"
    have mid: "lo \<le> mid" "mid < hi" using True by (simp_all add: mid_def)
    show ?thesis
    proof (cases "a ! mid < x")
      case less: True
      have below: "\<forall>i<mid + 1. a ! i < x"
      proof (intro allI impI)
        fix i assume "i < mid + 1"
        then have "i \<le> mid" by simp
        with mid "1.prems"(3) have "a ! i \<le> a ! mid"
          using sorted_nth_mono [OF "1.prems"(1), of i mid] by simp
        with less show "a ! i < x" by simp
      qed
      have "bisect_left_loop a x (mid + 1) hi \<le> length a \<and>
         (\<forall>i<bisect_left_loop a x (mid + 1) hi. a ! i < x) \<and>
         (\<forall>i. bisect_left_loop a x (mid + 1) hi \<le> i \<and> i < length a \<longrightarrow> \<not> a ! i < x)"
        using "1.IH"(1) [OF True mid_def less "1.prems"(1)] mid "1.prems" below by simp
      moreover have "bisect_left_loop a x lo hi = bisect_left_loop a x (mid + 1) hi"
        using True less by (simp add: bisect_left_loop.simps [of a x lo hi] mid_def Let_def)
      ultimately show ?thesis by simp
    next
      case notless: False
      have above: "\<forall>i. mid \<le> i \<and> i < length a \<longrightarrow> \<not> a ! i < x"
      proof (intro allI impI)
        fix i assume "mid \<le> i \<and> i < length a"
        then have "a ! mid \<le> a ! i"
          using sorted_nth_mono [OF "1.prems"(1), of mid i] by simp
        with notless show "\<not> a ! i < x" by simp
      qed
      have "bisect_left_loop a x lo mid \<le> length a \<and>
         (\<forall>i<bisect_left_loop a x lo mid. a ! i < x) \<and>
         (\<forall>i. bisect_left_loop a x lo mid \<le> i \<and> i < length a \<longrightarrow> \<not> a ! i < x)"
        using "1.IH"(2) [OF True mid_def notless "1.prems"(1)] mid "1.prems" above by simp
      moreover have "bisect_left_loop a x lo hi = bisect_left_loop a x lo mid"
        using True notless by (simp add: bisect_left_loop.simps [of a x lo hi] mid_def Let_def)
      ultimately show ?thesis by simp
    qed
  qed
qed

lemma filter_less_partition:
  assumes "r \<le> length a" "\<forall>i<r. a ! i < x" "\<forall>i. r \<le> i \<and> i < length a \<longrightarrow> \<not> a ! i < (x::real)"
  shows "length (filter (\<lambda>y. y < x) a) = r"
proof -
  have "filter (\<lambda>y. y < x) (take r a) = take r a"
    using assms(1,2) by (auto simp: filter_id_conv in_set_conv_nth)
  moreover have "filter (\<lambda>y. y < x) (drop r a) = []"
    using assms(1,3) by (auto simp: filter_empty_conv in_set_conv_nth)
  moreover have "filter (\<lambda>y. y < x) a = filter (\<lambda>y. y < x) (take r a) @ filter (\<lambda>y. y < x) (drop r a)"
    by (simp flip: filter_append)
  ultimately show ?thesis using assms(1) by simp
qed

lemma bisect_left_sorted:
  assumes "sorted a"
  shows "bisect_left a x = length (filter (\<lambda>y. y < x) a)"
proof -
  have "bisect_left_loop a x 0 (length a) \<le> length a \<and>
         (\<forall>i<bisect_left_loop a x 0 (length a). a ! i < x) \<and>
         (\<forall>i. bisect_left_loop a x 0 (length a) \<le> i \<and> i < length a \<longrightarrow> \<not> a ! i < x)"
    by (rule bisect_left_loop_partition [OF assms]) simp_all
  then have "length (filter (\<lambda>y. y < x) a) = bisect_left_loop a x 0 (length a)"
    by (intro filter_less_partition) blast+
  then show ?thesis by (simp add: bisect_left_def)
qed

lemma bisect_left_sort:
  "bisect_left (sort distribution) x = length (filter (\<lambda>y. y < x) distribution)"
proof -
  have "bisect_left (sort distribution) x = length (filter (\<lambda>y. y < x) (sort distribution))"
    by (rule bisect_left_sorted) simp
  also have "\<dots> = length (filter (\<lambda>y. y < x) distribution)"
    by (simp add: filter_sort)
  finally show ?thesis .
qed

lemma sim_prob_rank:
  "sim_prob distribution observed =
     (real (length distribution) - real (length (filter (\<lambda>s. s < observed) distribution)))
       / (real (length distribution) + 1)"
proof -
  have "length (filter (\<lambda>s. s < observed) distribution) \<le> length distribution"
    by (rule length_filter_le)
  then show ?thesis
    by (simp add: sim_prob_def bisect_left_sort Let_def add.commute)
qed


section \<open>The scores on the fixtures\<close>

lemma built_four:
  "fst (built family_four cls) =
     \<lparr>graph = hpo_fixture, family_hpos = family_four, alt_node_ids = Map.empty,
      descendant_cache = Map.empty, ancestor_cache = Map.empty,
      hpo_counts = [''HP:0000118'' \<mapsto> 1], total_freq = 4\<rparr>"
  by (simp add: built_def tally_def ICSimilarity_init_def CalculateSimilarity_init_def
      tally_hpo_terms_def family_four_def add_hpo_def has_node_fixture)

lemma built_distinct:
  "fst (built family_distinct cls) =
     \<lparr>graph = hpo_fixture, family_hpos = family_distinct, alt_node_ids = Map.empty,
      descendant_cache = Map.empty, ancestor_cache = Map.empty,
      hpo_counts = [''HP:0000707'' \<mapsto> 1, ''HP:0000924'' \<mapsto> 1], total_freq = 2\<rparr>"
  by (simp add: built_def tally_def ICSimilarity_init_def CalculateSimilarity_init_def
      tally_hpo_terms_def family_distinct_def add_hpo_def has_node_fixture)

lemma built_one:
  "fst (built family_one cls) =
     \<lparr>graph = hpo_fixture, family_hpos = family_one, alt_node_ids = Map.empty,
      descendant_cache = Map.empty, ancestor_cache = Map.empty,
      hpo_counts = [''HP:0000707'' \<mapsto> 1], total_freq = 1\<rparr>"
  by (simp add: built_def tally_def ICSimilarity_init_def CalculateSimilarity_init_def
      tally_hpo_terms_def family_one_def add_hpo_def has_node_fixture)

lemma snd_built [simp]: "snd (built fam cls) = cls"
  by (simp add: built_def tally_def ICSimilarity_init_def)

lemmas ic_eval = information_content_def term_count_def tallied_def has_node_fixture
  descendants_fixture

lemma ic_same:
  "information_content (fst (built family_same cls)) ''HP:0000118'' = Inr (ln 2)"
  by (simp add: built_same ic_eval ln_div)

lemma ic_four:
  "information_content (fst (built family_four cls)) ''HP:0000001'' = Inr (ln 4)"
  "information_content (fst (built family_four cls)) ''HP:0000118'' = Inr (ln 4)"
  by (simp_all add: built_four ic_eval ln_div)

lemma ic_distinct:
  "information_content (fst (built family_distinct cls)) ''HP:0000001'' = Inr 0"
  "information_content (fst (built family_distinct cls)) ''HP:0000118'' = Inr 0"
  "information_content (fst (built family_distinct cls)) ''HP:0000707'' = Inr (ln 2)"
  "information_content (fst (built family_distinct cls)) ''HP:0002011'' = Inl ValueError"
  by (simp_all add: built_distinct ic_eval ln_div)

lemma ic_one:
  "information_content (fst (built family_one cls)) ''HP:0000707'' = Inr 0"
  by (simp add: built_one ic_eval)

lemma graph_built [simp]: "graph (fst (built fam cls)) = hpo_fixture"
  by (simp add: built_def tally_def ICSimilarity_init_def CalculateSimilarity_init_def)

lemma common_ancestors_fixture:
  "common_ancestors hpo_fixture ''HP:0000118'' ''HP:0000118'' = [''HP:0000001'', ''HP:0000118'']"
  "common_ancestors hpo_fixture ''HP:0000707'' ''HP:0000924'' = [''HP:0000001'', ''HP:0000118'']"
  "common_ancestors hpo_fixture ''HP:9999999'' ''HP:0000118'' = []"
  by (simp_all add: common_ancestors_def has_node_fixture ancestors_fixture)

lemma max_ic_same:
  "max_ic (fst (built family_same cls)) ''HP:0000118'' ''HP:0000118'' = Inr (ln 2)"
  by (simp add: max_ic_def common_ancestors_fixture ic_same ic_same_root)

lemma max_ic_four:
  "max_ic (fst (built family_four cls)) ''HP:0000118'' ''HP:0000118'' = Inr (ln 4)"
  by (simp add: max_ic_def common_ancestors_fixture ic_four)

lemma max_ic_distinct:
  "max_ic (fst (built family_distinct cls)) ''HP:0000707'' ''HP:0000924'' = Inr 0"
  by (simp add: max_ic_def common_ancestors_fixture ic_distinct)

lemma max_ic_absent:
  "max_ic (fst (built family_same cls)) ''HP:9999999'' ''HP:0000118'' = Inl ValueError"
  by (simp add: max_ic_def common_ancestors_fixture)

lemma geomean_single: "0 < x \<Longrightarrow> geomean [x] = Inr x"
  by (simp add: geomean_def)

lemma pair_score_same:
  "pair_score (fst (built family_same cls)) [''HP:0000118''] [''HP:0000118''] = Inr (ln 2)"
  by (simp add: pair_score_def max_ic_same geomean_single)

lemma pair_score_four:
  "pair_score (fst (built family_four cls)) [''HP:0000118''] [''HP:0000118''] = Inr (ln 4)"
  by (simp add: pair_score_def max_ic_four geomean_single)

lemma pair_score_distinct:
  "pair_score (fst (built family_distinct cls)) [''HP:0000707''] [''HP:0000924''] = Inl ValueError"
  by (simp add: pair_score_def max_ic_distinct geomean_def)

lemma upt_2: "[0..<2] = [0, Suc 0]"
  by (simp add: numeral_2_eq_2)

lemma group_score_same:
  "group_score (fst (built family_same cls)) [[''HP:0000118''], [''HP:0000118'']] = Inr (2 * ln 2)"
  by (simp add: group_score_def upt_2 pair_score_same)

lemma group_score_four:
  "group_score (fst (built family_four cls)) [[''HP:0000118''], [''HP:0000118'']] = Inr (2 * ln 4)"
  by (simp add: group_score_def upt_2 pair_score_four)

lemma group_score_empty: "group_score s [] = Inr 0"
  by (simp add: group_score_def)

lemma map_of_family_four:
  "map_of family_four ''person_01'' = Some [''HP:0000118'']"
  "map_of family_four ''person_02'' = Some [''HP:0000118'']"
  "map_of family_four ''person_03'' = Some [''HP:0000118'']"
  "map_of family_four ''person_04'' = Some [''HP:0000118'']"
  "map_of family_four ''person_99'' = None"
  by (simp_all add: family_four_def)

lemma map_of_family_same:
  "map_of family_same ''person_01'' = Some [''HP:0000118'']"
  "map_of family_same ''person_02'' = Some [''HP:0000118'']"
  "map_of family_same ''person_98'' = None"
  "map_of family_same ''person_99'' = None"
  by (simp_all add: family_same_def)

lemma sim_prob_single: "\<not> x < observed \<Longrightarrow> sim_prob [x] observed = 1 / 2"
  by (simp add: sim_prob_rank)

lemma p_value_four:
  "p_value first_k (fst (built family_four cls)) family_four [''person_01'', ''person_02''] 1
     = Inr (Some (1 / 2))"
proof -
  have terms: "List.map_filter (map_of family_four) [''person_01'', ''person_02'']
      = [[''HP:0000118''], [''HP:0000118'']]"
    by (simp add: List.map_filter_def map_of_family_four)
  have other: "filter (\<lambda>x. x \<notin> set [''person_01'', ''person_02'']) (map fst family_four)
      = [''person_03'', ''person_04'']"
    by (simp add: family_four_def)
  have sim: "simulated_score first_k (fst (built family_four cls)) family_four
      [''person_03'', ''person_04''] [''person_01'', ''person_02''] 0 = Inr (2 * ln 4)"
    by (simp add: simulated_score_def random_sample_def first_k_def family_lookup_def
        map_of_family_four group_score_four)
  show ?thesis
    unfolding p_value_def terms other Let_def
    by (simp add: group_score_four sim sim_prob_single)
qed

lemma p_value_none_present:
  "p_value first_k (fst (built family_same cls)) family_same [''person_98'', ''person_99''] 1
     = Inr (Some (1 / 2))"
proof -
  have terms: "List.map_filter (map_of family_same) [''person_98'', ''person_99''] = []"
    by (simp add: List.map_filter_def map_of_family_same)
  have other: "filter (\<lambda>x. x \<notin> set [''person_98'', ''person_99'']) (map fst family_same)
      = [''person_01'', ''person_02'']"
    by (simp add: family_same_def)
  have sim: "simulated_score first_k (fst (built family_same cls)) family_same
      [''person_01'', ''person_02''] [''person_98'', ''person_99''] 0 = Inr (2 * ln 2)"
    by (simp add: simulated_score_def random_sample_def first_k_def family_lookup_def
        map_of_family_same group_score_same)
  show ?thesis
    unfolding p_value_def terms other Let_def
    by (simp add: group_score_empty sim sim_prob_single)
qed

lemma observed_four_one_absent:
  "List.map_filter (map_of family_four) [''person_01'', ''person_02'', ''person_99'']
      = [[''HP:0000118''], [''HP:0000118'']]"
  by (simp add: List.map_filter_def map_of_family_four)

lemma pool_four_one_absent:
  "filter (\<lambda>x. x \<notin> set [''person_01'', ''person_02'', ''person_99'']) (map fst family_four)
      = [''person_03'', ''person_04'']"
  by (simp add: family_four_def)

lemma p_value_one_absent:
  "p_value first_k (fst (built family_four cls)) family_four
     [''person_01'', ''person_02'', ''person_99''] 1 = Inl ValueError"
proof -
  have sim: "simulated_score first_k (fst (built family_four cls)) family_four
      [''person_03'', ''person_04''] [''person_01'', ''person_02'', ''person_99''] 0 = Inl ValueError"
    by (simp add: simulated_score_def random_sample_def)
  show ?thesis
    unfolding p_value_def observed_four_one_absent pool_four_one_absent Let_def
    by (simp add: group_score_four sim)
qed


section \<open>The simulation loop\<close>


section \<open>Sums over pairs of positions\<close>

text \<open>
  The scores a group loop collects, as a sum indexed by positions: \<open>others\<close> at
  position \<open>pos\<close> is the list of the elements at all positions but \<open>pos\<close>.
\<close>

lemma collect_Inr:
  "(\<And>y. y \<in> set ys \<Longrightarrow> g y = Inr (h y)) \<Longrightarrow> collect g ys = Inr (map h ys)"
  by (induction ys) simp_all

lemma collect_map: "collect g (map f ys) = collect (\<lambda>y. g (f y)) ys"
  by (induction ys) simp_all

lemma filter_neq_upt:
  assumes "pos < n"
  shows "filter (\<lambda>j. j \<noteq> pos) [0..<n] = [0..<pos] @ [Suc pos..<n]"
proof -
  have "[0..<n] = [0..<pos] @ [pos] @ [Suc pos..<n]"
    using assms by (metis append_Cons append_Nil less_imp_le_nat upt_add_eq_append
        upt_conv_Cons zero_le le_add_diff_inverse)
  then have "filter (\<lambda>j. j \<noteq> pos) [0..<n]
      = filter (\<lambda>j. j \<noteq> pos) [0..<pos] @ filter (\<lambda>j. j \<noteq> pos) [Suc pos..<n]"
    by simp
  moreover have "filter (\<lambda>j. j \<noteq> pos) [0..<pos] = [0..<pos]"
    by (simp add: filter_id_conv)
  moreover have "filter (\<lambda>j. j \<noteq> pos) [Suc pos..<n] = [Suc pos..<n]"
    by (simp add: filter_id_conv)
  ultimately show ?thesis by simp
qed

lemma others_by_position:
  assumes "pos < length xs"
  shows "take pos xs @ drop (Suc pos) xs = map ((!) xs) (filter (\<lambda>j. j \<noteq> pos) [0..<length xs])"
proof -
  have "take pos xs = map ((!) xs) [0..<pos]"
    by (rule nth_equalityI) (use assms in auto)
  moreover have "drop (Suc pos) xs = map ((!) xs) [Suc pos..<length xs]"
    by (rule nth_equalityI) (use assms in auto)
  ultimately show ?thesis by (simp add: filter_neq_upt [OF assms])
qed

lemma sum_list_upt: "sum_list (map f [0..<n]) = (\<Sum>i<n. f i)"
  by (simp add: sum_list_distinct_conv_sum_set atLeast0LessThan)

lemma sum_list_others: "sum_list (map f (filter (\<lambda>j. j \<noteq> pos) [0..<n])) = (\<Sum>j\<in>{..<n} - {pos}. f j)"
proof -
  have "set (filter (\<lambda>j. j \<noteq> pos) [0..<n]) = {..<n} - {pos}" by auto
  then show ?thesis by (simp add: sum_list_distinct_conv_sum_set)
qed

lemma sum_list_concat_map: "sum_list (concat xss) = sum_list (map sum_list xss)"
  by (induction xss) simp_all

lemma group_score_ordered_pairs:
  assumes "\<And>i j. i < length xs \<Longrightarrow> j < length xs \<Longrightarrow> i \<noteq> j \<Longrightarrow>
             pair_score s (xs ! i) (xs ! j) = Inr (w i j)"
  shows "group_score s xs = Inr (\<Sum>i<length xs. \<Sum>j\<in>{..<length xs} - {i}. w i j)"
proof -
  let ?n = "length xs"
  let ?js = "\<lambda>pos. filter (\<lambda>j. j \<noteq> pos) [0..<?n]"
  have inner: "collect (pair_score s (xs ! pos)) (take pos xs @ drop (Suc pos) xs)
                 = Inr (map (w pos) (?js pos))" if "pos < ?n" for pos
  proof -
    have "collect (pair_score s (xs ! pos)) (take pos xs @ drop (Suc pos) xs)
            = collect (\<lambda>j. pair_score s (xs ! pos) (xs ! j)) (?js pos)"
      by (simp only: others_by_position [OF that] collect_map)
    also have "\<dots> = Inr (map (w pos) (?js pos))"
      by (rule collect_Inr) (use that assms in auto)
    finally show ?thesis .
  qed
  have "collect (\<lambda>pos. collect (pair_score s (xs ! pos)) (take pos xs @ drop (Suc pos) xs)) [0..<?n]
          = Inr (map (\<lambda>pos. map (w pos) (?js pos)) [0..<?n])"
    by (rule collect_Inr) (simp add: inner)
  then have "group_score s xs
      = Inr (sum_list (concat (map (\<lambda>pos. map (w pos) (?js pos)) [0..<?n])))"
    by (simp add: group_score_def)
  also have "sum_list (concat (map (\<lambda>pos. map (w pos) (?js pos)) [0..<?n]))
      = sum_list (map (\<lambda>pos. sum_list (map (w pos) (?js pos))) [0..<?n])"
    by (simp add: sum_list_concat_map o_def)
  also have "\<dots> = (\<Sum>i<?n. \<Sum>j\<in>{..<?n} - {i}. w i j)"
    by (simp only: sum_list_others sum_list_upt)
  finally show ?thesis .
qed

lemma pair_score_geometric_mean:
  assumes "proband_1 \<noteq> []" "proband_2 \<noteq> []"
    and "\<And>t1 t2. t1 \<in> set proband_1 \<Longrightarrow> t2 \<in> set proband_2 \<Longrightarrow> max_ic s t1 t2 = Inr (m t1 t2)"
  shows "pair_score s proband_1 proband_2 =
     (if \<exists>t1\<in>set proband_1. \<exists>t2\<in>set proband_2. m t1 t2 \<le> 0 then Inl ValueError
      else Inr (10 powr ((\<Sum>t1\<leftarrow>proband_1. \<Sum>t2\<leftarrow>proband_2. log 10 (m t1 t2))
                          / real (length proband_1 * length proband_2))))"
proof -
  let ?ics = "concat (map (\<lambda>t1. map (m t1) proband_2) proband_1)"
  have inner: "collect (max_ic s t1) proband_2 = Inr (map (m t1) proband_2)"
    if "t1 \<in> set proband_1" for t1
    by (rule collect_Inr) (simp add: assms(3) that)
  have "collect (\<lambda>t1. collect (max_ic s t1) proband_2) proband_1
          = Inr (map (\<lambda>t1. map (m t1) proband_2) proband_1)"
    by (rule collect_Inr) (simp add: inner)
  then have score: "pair_score s proband_1 proband_2 = geomean ?ics"
    by (simp add: pair_score_def)
  have ex: "list_ex (\<lambda>x. x \<le> 0) ?ics \<longleftrightarrow> (\<exists>t1\<in>set proband_1. \<exists>t2\<in>set proband_2. m t1 t2 \<le> 0)"
    by (auto simp: list_ex_iff)
  have len: "length ?ics = length proband_1 * length proband_2"
    by (simp add: length_concat o_def sum_list_triv)
  have pos: "length proband_1 * length proband_2 \<noteq> 0"
    using assms(1,2) by simp
  have logs: "sum_list (map (log 10) ?ics)
      = (\<Sum>t1\<leftarrow>proband_1. \<Sum>t2\<leftarrow>proband_2. log 10 (m t1 t2))"
    by (simp add: map_concat sum_list_concat_map o_def)
  show ?thesis
    unfolding score geomean_def ex len logs using pos by simp
qed

lemma for_loop_cong:
  "(\<And>y. y \<in> set ys \<Longrightarrow> body y = body' y) \<Longrightarrow> for_loop body ys = for_loop body' ys"
proof (induction ys)
  case Nil
  show ?case by (rule ext) simp
next
  case (Cons y ys)
  then have "for_loop body ys = for_loop body' ys" and "body y = body' y" by simp_all
  then show ?case by (intro ext) simp
qed

lemma sum_list_from: "sum_list (map f [Suc x..<n]) = (\<Sum>j\<in>{x<..<n}. f j)"
  by (simp add: sum_list_distinct_conv_sum_set atLeastSucLessThan_greaterThanLessThan)

lemma scores_get_proband_similarity_unordered_pairs:
  assumes "I hpo_graph"
    and "\<And>i j. i < j \<Longrightarrow> j < length probands \<Longrightarrow>
           refines I (scores_get_score_for_pair mi (probands ! i) (probands ! j)) (Inr (w i j))"
  shows "\<exists>g'. scores_get_proband_similarity mi probands hpo_graph
                 = Inr (\<Sum>i<length probands. \<Sum>j\<in>{i<..<length probands}. w i j, g') \<and> I g'"
proof -
  let ?n = "length probands"
  let ?f = "\<lambda>x y. scores_get_score_for_pair mi (probands ! x) (probands ! y)"
  let ?body = "\<lambda>x y acc. if x = y then Inr acc else append_call (?f x) y acc"
  have inner: "appends I (for_loop (?body x) [x..<?n]) (Inr (map (w x) [Suc x..<?n]))"
    if "x < ?n" for x
  proof -
    have split: "[x..<?n] = x # [Suc x..<?n]" using that by (simp add: upt_conv_Cons)
    have skip: "for_loop (?body x) [x..<?n] = for_loop (?body x) [Suc x..<?n]"
      unfolding split by (rule ext) simp
    have rest: "for_loop (?body x) [Suc x..<?n] = for_loop (append_call (?f x)) [Suc x..<?n]"
      by (rule for_loop_cong) auto
    have "appends I (for_loop (append_call (?f x)) [Suc x..<?n])
            (collect (\<lambda>y. Inr (w x y)) [Suc x..<?n])"
      by (rule appends_append_call) (simp add: assms(2))
    moreover have "collect (\<lambda>y. Inr (w x y)) [Suc x..<?n] = Inr (map (w x) [Suc x..<?n])"
      by (rule collect_Inr) simp
    ultimately show ?thesis by (simp add: skip rest)
  qed
  have "appends I (for_loop (\<lambda>x. for_loop (?body x) [x..<?n]) [0..<?n])
          (and_then (collect (\<lambda>x. Inr (map (w x) [Suc x..<?n])) [0..<?n])
             (\<lambda>vss. Inr (concat vss)))"
    by (rule appends_nested) (simp add: inner)
  moreover have "collect (\<lambda>x. Inr (map (w x) [Suc x..<?n]) :: error + real list) [0..<?n]
      = Inr (map (\<lambda>x. map (w x) [Suc x..<?n]) [0..<?n])"
    by (rule collect_Inr) simp
  ultimately have "appends I (for_loop (\<lambda>x. for_loop (?body x) [x..<?n]) [0..<?n])
          (Inr (concat (map (\<lambda>x. map (w x) [Suc x..<?n]) [0..<?n])))"
    by simp
  from appendsD_Inr [OF this refl assms(1), of "[]"] obtain g' where
    run: "for_loop (\<lambda>x. for_loop (?body x) [x..<?n]) [0..<?n] ([], hpo_graph)
            = Inr (concat (map (\<lambda>x. map (w x) [Suc x..<?n]) [0..<?n]), g')" and I: "I g'"
    by auto
  have "sum_list (concat (map (\<lambda>x. map (w x) [Suc x..<?n]) [0..<?n]))
      = (\<Sum>i<?n. \<Sum>j\<in>{i<..<?n}. w i j)"
    by (simp add: sum_list_concat_map o_def sum_list_from sum_list_upt)
  with run I show ?thesis
    by (simp add: scores_get_proband_similarity_def)
qed

text \<open>
  The group loop of \<open>hpo_similarity.py\<close> in general: when the caches agree with the
  frequency table and the score of every ordered pair of distinct positions \<open>(i, j)\<close>
  is defined, \<open>w i j\<close>, the group score is defined and is the sum of \<open>w i j\<close> over all
  ordered pairs of distinct positions, where the loop of \<open>get_scores.py\<close> above sums
  over the pairs \<open>i < j\<close>.
\<close>

lemma get_proband_similarity_ordered_pairs:
  assumes "coherent s st"
    and "\<forall>i<length hpo_terms. \<forall>j<length hpo_terms. i \<noteq> j \<longrightarrow>
           outcome (get_score_for_pair (hpo_terms ! i) (hpo_terms ! j) st) = Inr (w i j)"
  shows "outcome (get_proband_similarity hpo_terms st)
           = Inr (\<Sum>i<length hpo_terms. \<Sum>j\<in>{..<length hpo_terms} - {i}. w i j)"
proof -
  have "pair_score s (hpo_terms ! i) (hpo_terms ! j) = Inr (w i j)"
    if "i < length hpo_terms" "j < length hpo_terms" "i \<noteq> j" for i j
    using assms(2) that
    by (simp add: outcome_refines [OF refines_get_score_for_pair assms(1)])
  then have "group_score s hpo_terms
      = Inr (\<Sum>i<length hpo_terms. \<Sum>j\<in>{..<length hpo_terms} - {i}. w i j)"
    by (rule group_score_ordered_pairs)
  then show ?thesis
    by (simp only: outcome_refines [OF refines_get_proband_similarity assms(1)])
qed

text \<open>Two probands with the term \<open>HP:0000118\<close> each, with \<open>w i j = ln 2\<close>.\<close>

lemma get_proband_similarity_ordered_pairs_two:
  "coherent (fst (built family_same class_definition)) (built family_same class_definition) \<and>
   outcome (get_score_for_pair ([[''HP:0000118''], [''HP:0000118'']] ! 0)
              ([[''HP:0000118''], [''HP:0000118'']] ! 1)
              (built family_same class_definition)) = Inr (ln 2) \<and>
   outcome (get_score_for_pair ([[''HP:0000118''], [''HP:0000118'']] ! 1)
              ([[''HP:0000118''], [''HP:0000118'']] ! 0)
              (built family_same class_definition)) = Inr (ln 2) \<and>
   outcome (get_proband_similarity [[''HP:0000118''], [''HP:0000118'']]
              (built family_same class_definition))
     = Inr (\<Sum>i<length [[''HP:0000118''], [''HP:0000118'']].
              \<Sum>j\<in>{..<length [[''HP:0000118''], [''HP:0000118'']]} - {i}. ln 2)"
proof -
  let ?xs = "[[''HP:0000118''], [''HP:0000118'']]"
  let ?st = "built family_same class_definition"
  have coh: "coherent (fst ?st) ?st" by (rule coherent_built)
  have pair: "outcome (get_score_for_pair [''HP:0000118''] [''HP:0000118''] ?st) = Inr (ln 2)"
    by (simp only: outcome_refines [OF refines_get_score_for_pair coherent_built] pair_score_same)
  have elems: "?xs ! i = [''HP:0000118'']" if "i < length ?xs" for i
    using that by (cases i) simp_all
  have hyp: "\<forall>i<length ?xs. \<forall>j<length ?xs. i \<noteq> j \<longrightarrow>
           outcome (get_score_for_pair (?xs ! i) (?xs ! j) ?st) = Inr (ln 2)"
  proof (intro allI impI)
    fix i j assume "i < length ?xs" "j < length ?xs"
    then show "outcome (get_score_for_pair (?xs ! i) (?xs ! j) ?st) = Inr (ln 2)"
      by (simp only: elems pair)
  qed
  from get_proband_similarity_ordered_pairs [OF coh hyp] coh pair
  show ?thesis by simp
qed

section \<open>What a cached value does to a later call\<close>

lemma calculate_information_content_cached:
  "ic_cache (snd st) t = Some v \<Longrightarrow> calculate_information_content t st = Inr (v, st)"
  by (simp add: calculate_information_content_def)

lemma calculate_information_content_caches:
  assumes "calculate_information_content t st = Inr (v, st')" "has_node (graph (fst st)) t"
  shows "ic_cache (snd st') t = Some v"
proof (cases "ic_cache (snd st) t")
  case (Some w)
  with assms show ?thesis by (simp add: calculate_information_content_def)
next
  case None
  obtain n st1 where gt: "get_term_count t st = (n, st1)" by (cases "get_term_count t st")
  have "graph (fst st1) = graph (fst st)"
    using gt by (auto simp: get_term_count_def get_subterms_def Let_def
        split: option.splits if_splits)
  with assms None gt show ?thesis
    by (auto simp: calculate_information_content_def Let_def split: if_splits)
qed

lemma information_content_full_coverage:
  assumes "coherent s st" "has_node (graph s) t" "0 < total_freq s"
    and "term_count s t = total_freq s"
  shows "outcome (calculate_information_content t st) = Inr 0"
proof -
  have "information_content s t = Inr 0"
    using assms(2-4) by (simp add: information_content_def)
  then show ?thesis
    by (simp only: outcome_refines [OF refines_calculate_information_content assms(1)])
qed

section \<open>The claims\<close>

text \<open>
  C1 (each tally of a graph term increments its count and the total, so the total is the
  sum of the tallies). Tallying the term \<open>HP:0000118\<close>, a node of the graph, twice: the
  second call finds the term among the counts, skips the guarded block and with it the
  increment of the term's count, and still increments the total. The term's count is 1,
  the sum of all tallies is 1 and the total is 2.
\<close>

theorem add_hpo_twice_count_behind_total:
  "has_node hpo_fixture ''HP:0000118'' \<and>
   hpo_counts (add_hpo ''HP:0000118'' (add_hpo ''HP:0000118''
      (CalculateSimilarity_init [] hpo_fixture Map.empty))) ''HP:0000118'' = Some 1 \<and>
   tally_sum (add_hpo ''HP:0000118'' (add_hpo ''HP:0000118''
      (CalculateSimilarity_init [] hpo_fixture Map.empty))) = 1 \<and>
   total_freq (add_hpo ''HP:0000118'' (add_hpo ''HP:0000118''
      (CalculateSimilarity_init [] hpo_fixture Map.empty))) = 2"
  by (simp add: add_hpo_def CalculateSimilarity_init_def has_node_def hpo_fixture_def
      tally_sum_def)

text \<open>
  C2 (after the tally of the population the information content of the root is 0). Two
  probands record the same term \<open>HP:0000118\<close>. After the tally the subtree of the root
  holds every tallied occurrence, yet the count of the root is 1 and the total is 2 (the
  second occurrence reached the total only), and the information content of the root is
  \<open>ln 2\<close>, not 0.
\<close>

theorem root_information_content_not_zero:
  "term_count (fst (built family_same class_definition)) ''HP:0000001'' = 1 \<and>
   total_freq (fst (built family_same class_definition)) = 2 \<and>
   outcome (calculate_information_content ''HP:0000001'' (built family_same class_definition))
     = Inr (ln 2) \<and>
   ln 2 \<noteq> (0::real)"
proof -
  have "outcome (calculate_information_content ''HP:0000001'' (built family_same class_definition))
     = Inr (ln 2)"
    using outcome_refines [OF refines_calculate_information_content coherent_built]
    by (simp add: ic_same_root)
  then show ?thesis
    by (simp add: built_same term_count_def tallied_def has_node_fixture descendants_fixture)
qed



text \<open>
  C4 (with fewer than two term sets present the test returns no probability and neither
  scores nor simulates). None of the two observed identifiers is in the population: no
  term set is collected, the test with one simulation scores the empty group, draws and
  scores a simulated group, and returns the probability \<open>1/2\<close>.
\<close>

theorem test_similarity_no_proband_present:
  "List.map_filter (map_of family_same) [''person_98'', ''person_99''] = [] \<and>
   outcome (test_similarity first_k (built family_same class_definition) family_same
      [''person_98'', ''person_99''] 1) = Inr (Some (1 / 2))"
proof -
  have "outcome (test_similarity first_k (built family_same class_definition) family_same
      [''person_98'', ''person_99''] 1) = Inr (Some (1 / 2))"
    by (simp only: outcome_refines [OF refines_test_similarity coherent_built]
        p_value_none_present)
  then show ?thesis
    by (simp add: List.map_filter_def map_of_family_same)
qed

text \<open>
  C5 (a term absent from the graph is discounted on every scoring path and nothing is
  raised). For the term \<open>HP:9999999\<close>, absent from the graph: its information content
  is 0 and its common ancestors with \<open>HP:0000118\<close> are the empty set, but \<open>get_max_ic\<close>
  of the pair raises \<open>ValueError\<close>, the maximum of an empty list.
\<close>

theorem get_max_ic_absent_term_raises:
  "\<not> has_node hpo_fixture ''HP:9999999'' \<and>
   outcome (calculate_information_content ''HP:9999999'' (built family_same class_definition))
     = Inr 0 \<and>
   fst (find_common_ancestors ''HP:9999999'' ''HP:0000118''
          (fst (built family_same class_definition))) = [] \<and>
   outcome (get_max_ic ''HP:9999999'' ''HP:0000118'' (built family_same class_definition))
     = Inl ValueError"
proof -
  have ic: "outcome (calculate_information_content ''HP:9999999'' (built family_same class_definition))
     = Inr 0"
    using outcome_refines [OF refines_calculate_information_content coherent_built]
    by (simp add: information_content_def has_node_fixture)
  have "coherent (fst (built family_same class_definition))
          (fst (built family_same class_definition), class_definition)"
    using coherent_built [of family_same] by (simp add: built_def tally_def ICSimilarity_init_def)
  from coherent_find_common_ancestors [OF this]
  have ca: "fst (find_common_ancestors ''HP:9999999'' ''HP:0000118''
          (fst (built family_same class_definition))) = []"
    by (simp add: common_ancestors_fixture)
  have "outcome (get_max_ic ''HP:9999999'' ''HP:0000118'' (built family_same class_definition))
     = Inl ValueError"
    using outcome_refines [OF refines_get_max_ic coherent_built]
    by (simp add: max_ic_absent)
  with ic ca show ?thesis by (simp add: has_node_fixture)
qed

text \<open>
  C6 (the group score is the sum of the pair scores over the unordered pairs of distinct
  probands, each pair once). A group of two probands with the term \<open>HP:0000118\<close> each
  has one unordered pair, whose score is \<open>ln 2\<close>. \<open>get_proband_similarity\<close> of
  \<open>hpo_similarity.py\<close> scores the pair at position 0 against position 1 and again at
  position 1 against position 0: the group score is \<open>2 * ln 2\<close>, twice the score of the
  pair.
\<close>

theorem get_proband_similarity_counts_pair_twice:
  "outcome (get_score_for_pair [''HP:0000118''] [''HP:0000118'']
              (built family_same class_definition)) = Inr (ln 2) \<and>
   outcome (get_proband_similarity [[''HP:0000118''], [''HP:0000118'']]
              (built family_same class_definition)) = Inr (2 * ln 2) \<and>
   2 * ln 2 \<noteq> (ln 2 :: real)"
proof -
  have "outcome (get_score_for_pair [''HP:0000118''] [''HP:0000118'']
              (built family_same class_definition)) = Inr (ln 2)"
    by (simp only: outcome_refines [OF refines_get_score_for_pair coherent_built] pair_score_same)
  moreover have "outcome (get_proband_similarity [[''HP:0000118''], [''HP:0000118'']]
              (built family_same class_definition)) = Inr (2 * ln 2)"
    by (simp only: outcome_refines [OF refines_get_proband_similarity coherent_built]
        group_score_same)
  ultimately show ?thesis by simp
qed

text \<open>
  The only common ancestors of \<open>HP:0000707\<close> and \<open>HP:0000924\<close> are the root and
  \<open>HP:0000118\<close>, whose subtrees hold both tallied occurrences: the largest information
  content of the pairing is 0, and the score of the pair raises \<open>ValueError\<close>.
\<close>

theorem get_score_for_pair_zero_ic_counterexample:
  "outcome (get_max_ic ''HP:0000707'' ''HP:0000924'' (built family_distinct class_definition))
     = Inr 0 \<and>
   outcome (get_score_for_pair [''HP:0000707''] [''HP:0000924'']
              (built family_distinct class_definition)) = Inl ValueError"
proof -
  have "outcome (get_max_ic ''HP:0000707'' ''HP:0000924'' (built family_distinct class_definition))
     = Inr 0"
    by (simp only: outcome_refines [OF refines_get_max_ic coherent_built] max_ic_distinct)
  moreover have "outcome (get_score_for_pair [''HP:0000707''] [''HP:0000924'']
              (built family_distinct class_definition)) = Inl ValueError"
    by (simp only: outcome_refines [OF refines_get_score_for_pair coherent_built]
        pair_score_distinct)
  ultimately show ?thesis by simp
qed

text \<open>
  C7, as the code has it. For two non-empty term lists, caches that agree with the
  frequency table and every pairing's largest information content defined, \<open>m t1 t2\<close>:
  the pair score raises \<open>ValueError\<close> as soon as one pairing's value is 0 (or less), and
  otherwise is 10 to the power of the mean of the decimal logarithms of all values.
  No value is floored and no pairing is left out.
\<close>

theorem get_score_for_pair_geometric_mean:
  assumes "coherent s st"
    and "proband_1 \<noteq> []" and "proband_2 \<noteq> []"
    and "\<forall>t1\<in>set proband_1. \<forall>t2\<in>set proband_2.
           outcome (get_max_ic t1 t2 st) = Inr (m t1 t2)"
  shows "outcome (get_score_for_pair proband_1 proband_2 st) =
     (if \<exists>t1\<in>set proband_1. \<exists>t2\<in>set proband_2. m t1 t2 \<le> 0 then Inl ValueError
      else Inr (10 powr ((\<Sum>t1\<leftarrow>proband_1. \<Sum>t2\<leftarrow>proband_2. log 10 (m t1 t2))
                          / real (length proband_1 * length proband_2))))"
proof -
  have "max_ic s t1 t2 = Inr (m t1 t2)" if "t1 \<in> set proband_1" "t2 \<in> set proband_2" for t1 t2
    using assms(4) that by (simp add: outcome_refines [OF refines_get_max_ic assms(1)])
  from pair_score_geometric_mean [OF assms(2,3) this]
  show ?thesis
    by (simp only: outcome_refines [OF refines_get_score_for_pair assms(1)])
qed

text \<open>The pairing above, with \<open>m t1 t2 = 0\<close>.\<close>

theorem get_score_for_pair_geometric_mean_witness:
  "coherent (fst (built family_distinct class_definition)) (built family_distinct class_definition) \<and>
   [''HP:0000707''] \<noteq> [] \<and> [''HP:0000924''] \<noteq> [] \<and>
   outcome (get_max_ic ''HP:0000707'' ''HP:0000924'' (built family_distinct class_definition))
     = Inr 0 \<and>
   outcome (get_score_for_pair [''HP:0000707''] [''HP:0000924'']
              (built family_distinct class_definition)) = Inl ValueError"
proof -
  let ?st = "built family_distinct class_definition"
  have coh: "coherent (fst ?st) ?st" by (rule coherent_built)
  have m: "outcome (get_max_ic ''HP:0000707'' ''HP:0000924'' ?st) = Inr 0"
    by (simp only: outcome_refines [OF refines_get_max_ic coherent_built] max_ic_distinct)
  have ne1: "[''HP:0000707''] \<noteq> []" and ne2: "[''HP:0000924''] \<noteq> []" by simp_all
  have hyp: "\<forall>t1\<in>set [''HP:0000707'']. \<forall>t2\<in>set [''HP:0000924''].
           outcome (get_max_ic t1 t2 ?st) = Inr ((\<lambda>t1 t2. 0) t1 t2)"
    using m by simp
  from get_score_for_pair_geometric_mean [OF coh ne1 ne2 hyp] coh m
  show ?thesis by simp
qed

text \<open>
  C8 (every simulated sample is drawn from the probands not observed and has the size of
  the observed group). Three observed identifiers, one of them not in the population of
  four: two term sets are collected and the candidate pool has two probands, but the
  sample drawn has the size of the list of identifiers, three, and \<open>random.sample\<close>
  raises \<open>ValueError\<close>. With the two identifiers that are in the population the test
  returns.
\<close>

theorem test_similarity_sample_size_from_identifiers:
  "length (List.map_filter (map_of family_four) [''person_01'', ''person_02'', ''person_99'']) = 2 \<and>
   length (filter (\<lambda>x. x \<notin> set [''person_01'', ''person_02'', ''person_99''])
             (map fst family_four)) = 2 \<and>
   outcome (test_similarity first_k (built family_four class_definition) family_four
      [''person_01'', ''person_02'', ''person_99''] 1) = Inl ValueError \<and>
   outcome (test_similarity first_k (built family_four class_definition) family_four
      [''person_01'', ''person_02''] 1) = Inr (Some (1 / 2))"
proof -
  have "outcome (test_similarity first_k (built family_four class_definition) family_four
      [''person_01'', ''person_02'', ''person_99''] 1) = Inl ValueError"
    by (simp only: outcome_refines [OF refines_test_similarity coherent_built]
        p_value_one_absent)
  moreover have "outcome (test_similarity first_k (built family_four class_definition) family_four
      [''person_01'', ''person_02''] 1) = Inr (Some (1 / 2))"
    by (simp only: outcome_refines [OF refines_test_similarity coherent_built]
        p_value_four)
  ultimately show ?thesis
    unfolding observed_four_one_absent pool_four_one_absent by simp
qed

text \<open>
  The node \<open>HP:0002011\<close> was not tallied and has no descendants: with a total of 2 its
  count is 0 and the logarithm raises \<open>ValueError\<close>.
\<close>

theorem information_content_unused_node_raises:
  "has_node hpo_fixture ''HP:0002011'' \<and>
   0 < total_freq (fst (built family_distinct class_definition)) \<and>
   outcome (calculate_information_content ''HP:0002011'' (built family_distinct class_definition))
     = Inl ValueError"
proof -
  have "outcome (calculate_information_content ''HP:0002011'' (built family_distinct class_definition))
     = Inl ValueError"
    by (simp only: outcome_refines [OF refines_calculate_information_content coherent_built]
        ic_distinct)
  then show ?thesis by (simp add: has_node_fixture built_distinct)
qed

text \<open>
  C9, as the code has it. After the tally of a population on a fresh instance, with
  caches that agree with the frequency table, for every node \<open>t\<close> of the graph whose
  count (its own tally and those of its descendants) is positive: the total is positive
  and the information content of \<open>t\<close> is defined, is \<open>-ln (count / total)\<close>, and is at
  least 0.
\<close>

theorem information_content_nonnegative:
  assumes "s = tally_hpo_terms fam (CalculateSimilarity_init fam G alt)"
    and "coherent s st"
    and "has_node G t"
    and "0 < term_count s t"
  shows "0 < total_freq s \<and>
         (\<exists>v st'. calculate_information_content t st = Inr (v, st') \<and>
                   v = - ln (real_of_int (term_count s t) / real_of_int (total_freq s)) \<and>
                   0 \<le> v)"
proof -
  have inv: "tally_inv s"
    unfolding assms(1) by (intro tally_inv_tally_hpo_terms tally_inv_init)
  have le: "term_count s t \<le> total_freq s" by (rule term_count_le_total [OF inv])
  from information_content_defined [OF inv assms(4)]
  have ic: "information_content s t
              = Inr (- ln (real_of_int (term_count s t) / real_of_int (total_freq s)))"
    and nonneg: "0 \<le> - ln (real_of_int (term_count s t) / real_of_int (total_freq s))"
    by simp_all
  from refinesD_Inr [OF refines_calculate_information_content ic assms(2)]
  obtain st' where "calculate_information_content t st
      = Inr (- ln (real_of_int (term_count s t) / real_of_int (total_freq s)), st')"
    by blast
  with nonneg le assms(4) show ?thesis by auto
qed

text \<open>The node \<open>HP:0000707\<close> after the tally of the two probands with different terms.\<close>

theorem information_content_nonnegative_witness:
  "fst (built family_distinct class_definition)
     = tally_hpo_terms family_distinct
         (CalculateSimilarity_init family_distinct hpo_fixture Map.empty) \<and>
   coherent (fst (built family_distinct class_definition)) (built family_distinct class_definition) \<and>
   has_node hpo_fixture ''HP:0000707'' \<and>
   0 < term_count (fst (built family_distinct class_definition)) ''HP:0000707'' \<and>
   0 < total_freq (fst (built family_distinct class_definition)) \<and>
   (\<exists>v st'. calculate_information_content ''HP:0000707'' (built family_distinct class_definition)
               = Inr (v, st') \<and>
             v = - ln (real_of_int (term_count (fst (built family_distinct class_definition))
                                      ''HP:0000707'')
                       / real_of_int (total_freq (fst (built family_distinct class_definition)))) \<and>
             0 \<le> v)"
proof -
  have a: "fst (built family_distinct class_definition)
     = tally_hpo_terms family_distinct
         (CalculateSimilarity_init family_distinct hpo_fixture Map.empty)"
    by (simp add: built_def tally_def ICSimilarity_init_def)
  have b: "coherent (fst (built family_distinct class_definition))
             (built family_distinct class_definition)"
    by (rule coherent_built)
  have c: "has_node hpo_fixture ''HP:0000707''" by (simp add: has_node_fixture)
  have d: "0 < term_count (fst (built family_distinct class_definition)) ''HP:0000707''"
    by (simp add: built_distinct term_count_def tallied_def has_node_fixture descendants_fixture)
  from information_content_nonnegative [OF a b c d] a b c d show ?thesis by blast
qed

text \<open>
  C10 (no value memoized during a first run is reused by a second run with a different
  frequency table). A first run tallies one proband and asks for the information content
  of \<open>HP:0000707\<close>: 0, stored in the class attribute \<open>ic_cache\<close>. A second matcher is
  then constructed and tallies two probands: a different frequency table, from which the
  information content of the term is \<open>ln 2\<close>, as a matcher with empty class caches
  returns it. The second matcher returns the 0 of the first run.
\<close>

theorem information_content_reused_across_runs:
  "(case calculate_information_content ''HP:0000707'' (built family_one class_definition) of
      Inl e \<Rightarrow> False
    | Inr (v1, st1) \<Rightarrow>
        v1 = 0 \<and>
        outcome (calculate_information_content ''HP:0000707'' (built family_distinct (snd st1)))
          = Inr 0) \<and>
   outcome (calculate_information_content ''HP:0000707'' (built family_distinct class_definition))
     = Inr (ln 2) \<and>
   hpo_counts (fst (built family_one class_definition))
     \<noteq> hpo_counts (fst (built family_distinct class_definition))"
proof -
  from refinesD_Inr [OF refines_calculate_information_content ic_one coherent_built]
  obtain st1 where run1: "calculate_information_content ''HP:0000707''
      (built family_one class_definition) = Inr (0, st1)" by blast
  have "ic_cache (snd st1) ''HP:0000707'' = Some 0"
    by (rule calculate_information_content_caches [OF run1]) (simp add: has_node_fixture)
  then have "calculate_information_content ''HP:0000707'' (built family_distinct (snd st1))
      = Inr (0, built family_distinct (snd st1))"
    by (intro calculate_information_content_cached) simp
  then have run2: "outcome (calculate_information_content ''HP:0000707''
      (built family_distinct (snd st1))) = Inr 0" by simp
  have fresh: "outcome (calculate_information_content ''HP:0000707''
      (built family_distinct class_definition)) = Inr (ln 2)"
    by (simp only: outcome_refines [OF refines_calculate_information_content coherent_built]
        ic_distinct)
  have "hpo_counts (fst (built family_one class_definition)) ''HP:0000924''
     \<noteq> hpo_counts (fst (built family_distinct class_definition)) ''HP:0000924''"
    by (simp add: built_one built_distinct)
  then have differ: "hpo_counts (fst (built family_one class_definition))
     \<noteq> hpo_counts (fst (built family_distinct class_definition))" by metis
  show ?thesis using run1 run2 fresh differ by simp
qed

end
